theory Spec2Isabelle
  imports Main
begin

section \<open>The clouds client: data model\<close>

text \<open>
  The client of the clouds RPC framework (the prototype \<open>CloudsClient\<close>) is an object
  whose methods run to completion on one event loop. Every callback of the message bus
  and every timer is a later turn of that loop. The model is a state record, one function
  per method or closure of the source, and a \<open>step\<close> function that runs one turn.

  JavaScript values are modelled as far as the client looks at them: it tests truthiness,
  asks \<open>typeof v === 'function'\<close> and reads the \<open>code\<close> property of an error.

  Time is in milliseconds and counts from the moment the constructor runs.
\<close>

datatype jsval =
    VUndefined
  | VNull
  | VBool bool
  | VNum int
  | VStr string
  | VErr string "string option"   \<comment> \<open>an error object: message and \<open>code\<close> property\<close>
  | VFun nat                      \<comment> \<open>a function of the caller's code\<close>
  | VCall nat                     \<comment> \<open>the closure \<open>call\<close> of one invocation of a bound caller\<close>

fun truthy :: "jsval \<Rightarrow> bool" where
  "truthy VUndefined = False"
| "truthy VNull = False"
| "truthy (VBool b) = b"
| "truthy (VNum n) = (n \<noteq> 0)"
| "truthy (VStr s) = (s \<noteq> [])"
| "truthy (VErr m c) = True"
| "truthy (VFun k) = True"
| "truthy (VCall i) = True"

fun is_function :: "jsval \<Rightarrow> bool" where
  "is_function (VFun k) = True"
| "is_function (VCall i) = True"
| "is_function v = False"

fun code :: "jsval \<Rightarrow> string option" where
  "code (VErr m c) = c"
| "code v = None"

text \<open>
  The envelope is what \<open>utils.parseMessage\<close> decodes and what \<open>utils.pocketCallMessage\<close>
  encodes. Both live in \<open>lib/utils.js\<close>, which is not part of the sources at hand; the
  client reads the fields \<open>id\<close>, \<open>type\<close>, \<open>error\<close> and \<open>args\<close> only.
\<close>

record envelope =
  m_id :: string
  m_sender :: string
  m_type :: string
  m_name :: string
  m_args :: "jsval list"
  m_error :: jsval

text \<open>What the surroundings hand to one turn: the id \<open>utils.pocketCallMessage\<close> generates,
  the index \<open>parseInt(Math.random() * len, 10)\<close> evaluates to, and \<open>Date.now()\<close>, the time
  of the turn.\<close>

record env =
  e_msg_id :: string
  e_rnd :: nat
  e_now :: int

text \<open>The completion callback of \<open>call\<close> is given by the caller, or it is the closure
  \<open>onCallback\<close> of an invocation of a bound caller.\<close>

datatype callback = Given jsval | OnCallback nat

text \<open>The variable \<open>onRetry\<close> of \<open>bind\<close>: the parameter as supplied, or the default
  closure created inside the invocation with the given address.\<close>

datatype onretry = Supplied jsval | Default nat

datatype timer = CheckTimeout nat | TryAgain nat | ClearServerList

datatype effect =
    Subscribe string
  | Publish string envelope
  | Keys string
  | Del string
  | End string
  | Completed nat "jsval list"    \<comment> \<open>line 144: the callback of this call is applied\<close>
  | Apply jsval "jsval list"      \<comment> \<open>a function value of the caller's code is applied\<close>
  | Inherited string "jsval list" \<comment> \<open>an inherited member of \<open>_messages\<close> is applied, \<open>this = null\<close>\<close>
  | Throw string

text \<open>The variables of one activation of \<open>call\<close> (lines 116 to 165).\<close>

record call_closure =
  cc_name :: string
  cc_args :: "jsval list"
  cc_callback :: callback
  cc_msg :: envelope
  cc_serverId :: "string option"
  cc_hasCallback :: bool
  cc_tid :: "nat option"

text \<open>The variables of one activation of \<open>bind\<close> (lines 175 to 183).\<close>

record bind_closure =
  b_name :: string
  b_retry :: int
  b_timeout :: int
  b_onRetry :: onretry

text \<open>The variables of one invocation of a bound caller (lines 184 to 230).\<close>

record inv_closure =
  i_bind :: nat
  i_args :: "jsval list"
  i_callback :: jsval
  i_retryCounter :: int

text \<open>
  The three tables \<open>_messages\<close>, \<open>_servers\<close> and \<open>_serversTimestamp\<close> are plain objects
  created by \<open>{}\<close>. Reading \<open>table[k]\<close> finds an own property, or else what the prototype
  chain has under \<open>k\<close>; \<open>table['__proto__'] = v\<close> makes \<open>v\<close> the prototype when \<open>v\<close> is an
  object and does nothing when it is a number, and never creates an own property;
  \<open>delete\<close> and \<open>Object.keys\<close> concern own properties only. The fields \<open>messages\<close>,
  \<open>servers\<close> and \<open>serversTimestamp\<close> hold the own properties; \<open>messages_proto\<close> and
  \<open>servers_proto\<close> are \<open>None\<close> while the prototype is \<open>Object.prototype\<close>, and hold the \<open>cb\<close>
  (by the address of its call) or the array that replaced it. A timestamp is a number,
  so the prototype of \<open>_serversTimestamp\<close> stays \<open>Object.prototype\<close>.

  What a read of a table finds:
\<close>

datatype looked =
    LArray "string list"     \<comment> \<open>a list of server ids\<close>
  | LHandler nat             \<comment> \<open>the function \<open>cb\<close> of a call\<close>
  | LFunction nat            \<comment> \<open>an inherited built-in function, with its \<open>length\<close>\<close>
  | LString string
  | LNumber int
  | LObject                  \<comment> \<open>another object, such as \<open>Object.prototype\<close> itself\<close>
  | LNull
  | LUndefined

record client =
  c_id :: string
  c_timeout :: int
  c_prefix :: string
  c_serverMaxAge :: int
  c_notAutoCleanRemoteServer :: bool
  messages :: "string \<rightharpoonup> nat"
  messages_proto :: "nat option"
  servers :: "string \<rightharpoonup> string list"
  servers_proto :: "string list option"
  serversTimestamp :: "string \<rightharpoonup> int"
  clearServerListTid :: nat
  listenKey :: string
  calls :: "call_closure list"
  binds :: "bind_closure list"
  invs :: "inv_closure list"
  timers :: "nat \<rightharpoonup> timer \<times> int"
  due :: "nat \<Rightarrow> int"
  nextTimer :: nat
  scans :: "nat \<rightharpoonup> string \<times> nat"
  nextScan :: nat
  out :: "effect list"

section \<open>Helpers\<close>

definition emit :: "effect \<Rightarrow> client \<Rightarrow> client" where
  "emit x s = s\<lparr>out := out s @ [x]\<rparr>"

fun join_colon :: "string list \<Rightarrow> string" where
  "join_colon [] = []"
| "join_colon [x] = x"
| "join_colon (x # y # ys) = x @ '':'' @ join_colon (y # ys)"

text \<open>\<open>Array.prototype.join\<close> writes \<open>undefined\<close> as the empty string.\<close>

definition seg :: "string option \<Rightarrow> string" where
  "seg x = (case x of None \<Rightarrow> [] | Some v \<Rightarrow> v)"

definition key :: "client \<Rightarrow> string list \<Rightarrow> string" where
  "key s list = join_colon (if c_prefix s \<noteq> [] then c_prefix s # list else list)"

text \<open>\<open>item.split(':').pop()\<close>: the part after the last colon.\<close>

fun last_segment :: "string \<Rightarrow> string" where
  "last_segment [] = []"
| "last_segment (ch # cs) = (if CHR '':'' \<in> set cs then last_segment cs
     else if ch = CHR '':'' then cs else ch # cs)"

definition nth_opt :: "'a list \<Rightarrow> nat \<Rightarrow> 'a option" where
  "nth_opt xs i = (if i < length xs then Some (xs ! i) else None)"

text \<open>\<open>setTimeout\<close> and \<open>setInterval\<close> at the time \<open>now\<close>: the timer is armed with its delay and
  is due at \<open>now + delay\<close>. A timer does not fire before it is due; the model lets the turn
  of an armed timer happen at any time, so what is proved of every run holds for every
  timing.\<close>

definition setTimeout :: "timer \<Rightarrow> int \<Rightarrow> int \<Rightarrow> client \<Rightarrow> client" where
  "setTimeout f delay now s =
     s\<lparr>timers := (timers s)(nextTimer s \<mapsto> (f, delay)),
       due := (due s)(nextTimer s := now + delay),
       nextTimer := Suc (nextTimer s)\<rparr>"

definition clearTimeout :: "nat option \<Rightarrow> client \<Rightarrow> client" where
  "clearTimeout tid s = (case tid of None \<Rightarrow> s | Some t \<Rightarrow> s\<lparr>timers := (timers s)(t := None)\<rparr>)"

definition upd_call :: "nat \<Rightarrow> (call_closure \<Rightarrow> call_closure) \<Rightarrow> client \<Rightarrow> client" where
  "upd_call c f s = s\<lparr>calls := (calls s)[c := f (calls s ! c)]\<rparr>"

definition upd_inv :: "nat \<Rightarrow> (inv_closure \<Rightarrow> inv_closure) \<Rightarrow> client \<Rightarrow> client" where
  "upd_inv i f s = s\<lparr>invs := (invs s)[i := f (invs s ! i)]\<rparr>"

definition upd_bind :: "nat \<Rightarrow> (bind_closure \<Rightarrow> bind_closure) \<Rightarrow> client \<Rightarrow> client" where
  "upd_bind b f s = s\<lparr>binds := (binds s)[b := f (binds s ! b)]\<rparr>"

text \<open>Modelled from the spec: \<open>utils.pocketCallMessage(sender, name, args)\<close> of
  \<open>lib/utils.js\<close>, which builds the call envelope with a generated id.\<close>

definition pocketCallMessage :: "string \<Rightarrow> string \<Rightarrow> jsval list \<Rightarrow> env \<Rightarrow> envelope" where
  "pocketCallMessage sender name args e =
     \<lparr>m_id = e_msg_id e, m_sender = sender, m_type = ''call'', m_name = name,
      m_args = args, m_error = VUndefined\<rparr>"

definition timeout_error :: jsval where
  "timeout_error = VErr ''timeout'' (Some ''CLOUDS_CALL_SERVICE_TIMEOUT'')"

definition no_server_error :: jsval where
  "no_server_error = VErr ''no available server'' (Some ''CLOUDS_NO_AVAILABLE_SERVER'')"

section \<open>Reading and writing the tables\<close>

text \<open>
  The members of \<open>Object.prototype\<close> (ECMAScript 5.1, section 15.2.4, and the four legacy
  accessors helpers of the engine) with the \<open>length\<close> of each function; \<open>__proto__\<close> is
  treated apart.
\<close>

definition object_prototype :: "string \<Rightarrow> looked" where
  "object_prototype k =
     (case map_of
        [(''constructor'', 1), (''toString'', 0), (''toLocaleString'', 0), (''valueOf'', 0),
         (''hasOwnProperty'', 1), (''isPrototypeOf'', 1), (''propertyIsEnumerable'', 1),
         (''__defineGetter__'', 2), (''__defineSetter__'', 2),
         (''__lookupGetter__'', 1), (''__lookupSetter__'', 1)] k of
        None \<Rightarrow> LUndefined
      | Some n \<Rightarrow> LFunction n)"

text \<open>The members of \<open>Array.prototype\<close> (ECMAScript 5.1, section 15.4.4).\<close>

definition array_prototype :: "string \<Rightarrow> looked" where
  "array_prototype k =
     (case map_of
        [(''constructor'', 1), (''toString'', 0), (''toLocaleString'', 0), (''concat'', 1),
         (''join'', 1), (''pop'', 0), (''push'', 1), (''reverse'', 0), (''shift'', 0),
         (''slice'', 2), (''sort'', 1), (''splice'', 2), (''unshift'', 1), (''indexOf'', 1),
         (''lastIndexOf'', 1), (''every'', 1), (''some'', 1), (''forEach'', 1), (''map'', 1),
         (''filter'', 1), (''reduce'', 1), (''reduceRight'', 1)] k of
        None \<Rightarrow> object_prototype k
      | Some n \<Rightarrow> LFunction n)"

text \<open>An array index as a property name: \<open>0\<close>, or digits that do not start with \<open>0\<close>.\<close>

fun digit :: "char \<Rightarrow> nat option" where
  "digit ch = (if ch = CHR ''0'' then Some 0 else if ch = CHR ''1'' then Some 1
     else if ch = CHR ''2'' then Some 2 else if ch = CHR ''3'' then Some 3
     else if ch = CHR ''4'' then Some 4 else if ch = CHR ''5'' then Some 5
     else if ch = CHR ''6'' then Some 6 else if ch = CHR ''7'' then Some 7
     else if ch = CHR ''8'' then Some 8 else if ch = CHR ''9'' then Some 9 else None)"

fun digits :: "nat \<Rightarrow> string \<Rightarrow> nat option" where
  "digits acc [] = Some acc"
| "digits acc (ch # cs) =
     (case digit ch of None \<Rightarrow> None | Some d \<Rightarrow> digits (10 * acc + d) cs)"

definition array_index :: "string \<Rightarrow> nat option" where
  "array_index k =
     (if k = [] then None
      else if hd k = CHR ''0'' \<and> tl k \<noteq> [] then None
      else digits 0 k)"

text \<open>What an array \<open>xs\<close> that has become the prototype of \<open>_servers\<close> gives under \<open>k\<close>: its
  \<open>length\<close>, its elements, and the members of \<open>Array.prototype\<close>.\<close>

definition array_member :: "string list \<Rightarrow> string \<Rightarrow> looked" where
  "array_member xs k =
     (if k = ''length'' then LNumber (int (length xs))
      else case array_index k of
             Some i \<Rightarrow> if i < length xs then LString (xs ! i) else array_prototype k
           | None \<Rightarrow> array_prototype k)"

text \<open>What the function \<open>cb\<close> that has become the prototype of \<open>_messages\<close> gives under \<open>k\<close>:
  its own properties, and the members of \<open>Function.prototype\<close> (section 15.3.4).\<close>

definition function_member :: "string \<Rightarrow> looked" where
  "function_member k =
     (if k = ''length'' then LNumber 0
      else if k = ''name'' then LString ''cb''
      else if k = ''prototype'' then LObject
      else if k = ''arguments'' \<or> k = ''caller'' then LNull
      else case map_of [(''constructor'', 1), (''toString'', 0), (''apply'', 2),
                        (''call'', 1), (''bind'', 1)] k of
             None \<Rightarrow> object_prototype k
           | Some n \<Rightarrow> LFunction n)"

text \<open>\<open>this._servers[name]\<close>.\<close>

definition get_server :: "client \<Rightarrow> string \<Rightarrow> looked" where
  "get_server s name =
     (if name = ''__proto__''
      then (case servers_proto s of None \<Rightarrow> LObject | Some xs \<Rightarrow> LArray xs)
      else case servers s name of
             Some xs \<Rightarrow> LArray xs
           | None \<Rightarrow> (case servers_proto s of
                        None \<Rightarrow> object_prototype name
                      | Some xs \<Rightarrow> array_member xs name))"

text \<open>\<open>this._servers[name] = list\<close>.\<close>

definition put_server :: "string \<Rightarrow> string list \<Rightarrow> client \<Rightarrow> client" where
  "put_server name list s =
     (if name = ''__proto__'' then s\<lparr>servers_proto := Some list\<rparr>
      else s\<lparr>servers := (servers s)(name \<mapsto> list)\<rparr>)"

text \<open>\<open>this._serversTimestamp[name] = now\<close>.\<close>

definition put_timestamp :: "string \<Rightarrow> int \<Rightarrow> client \<Rightarrow> client" where
  "put_timestamp name now s =
     (if name = ''__proto__'' then s
      else s\<lparr>serversTimestamp := (serversTimestamp s)(name \<mapsto> now)\<rparr>)"

text \<open>\<open>this._messages[id]\<close>.\<close>

definition get_message :: "client \<Rightarrow> string \<Rightarrow> looked" where
  "get_message s mid =
     (if mid = ''__proto__''
      then (case messages_proto s of None \<Rightarrow> LObject | Some c \<Rightarrow> LHandler c)
      else case messages s mid of
             Some c \<Rightarrow> LHandler c
           | None \<Rightarrow> (case messages_proto s of
                        None \<Rightarrow> object_prototype mid
                      | Some c \<Rightarrow> function_member mid))"

text \<open>\<open>me._messages[id] = cb\<close>, with \<open>cb\<close> of the call \<open>c\<close>. Once a function is the
  prototype, its properties \<open>length\<close>, \<open>name\<close>, \<open>arguments\<close> and \<open>caller\<close> are inherited
  read-only: an assignment under such a name, when \<open>_messages\<close> has no own property of
  that name, is ignored (the code is not in strict mode).\<close>

definition put_message :: "string \<Rightarrow> nat \<Rightarrow> client \<Rightarrow> client" where
  "put_message mid c s =
     (if mid = ''__proto__'' then s\<lparr>messages_proto := Some c\<rparr>
      else if messages_proto s \<noteq> None \<and> messages s mid = None
              \<and> mid \<in> set [''length'', ''name'', ''arguments'', ''caller'']
      then s
      else s\<lparr>messages := (messages s)(mid \<mapsto> c)\<rparr>)"

text \<open>\<open>v.length\<close> of a value that is neither \<open>null\<close> nor \<open>undefined\<close>; \<open>None\<close> is
  \<open>undefined\<close>.\<close>

fun js_length :: "looked \<Rightarrow> nat option" where
  "js_length (LArray xs) = Some (length xs)"
| "js_length (LHandler c) = Some 0"
| "js_length (LFunction n) = Some n"
| "js_length (LString str) = Some (length str)"
| "js_length v = None"

text \<open>\<open>v.length < 1\<close>; with \<open>undefined\<close> for the length the comparison is false.\<close>

definition length_below_1 :: "looked \<Rightarrow> bool" where
  "length_below_1 v = (case js_length v of None \<Rightarrow> False | Some n \<Rightarrow> n < 1)"

text \<open>Reading a property of \<open>null\<close> or \<open>undefined\<close> throws a \<open>TypeError\<close>.\<close>

fun nullish :: "looked \<Rightarrow> bool" where
  "nullish LNull = True"
| "nullish LUndefined = True"
| "nullish v = False"

fun truthy_looked :: "looked \<Rightarrow> bool" where
  "truthy_looked LNull = False"
| "truthy_looked LUndefined = False"
| "truthy_looked (LString str) = (str \<noteq> [])"
| "truthy_looked (LNumber n) = (n \<noteq> 0)"
| "truthy_looked v = True"

text \<open>\<open>v[i]\<close> for the index \<open>i\<close>; \<open>None\<close> is \<open>undefined\<close>.\<close>

fun js_element :: "looked \<Rightarrow> nat \<Rightarrow> string option" where
  "js_element (LArray xs) i = nth_opt xs i"
| "js_element (LString str) i = (if i < length str then Some [str ! i] else None)"
| "js_element v i = None"

section \<open>Methods that touch the tables only\<close>

definition removeMessageHandler :: "string \<Rightarrow> client \<Rightarrow> client" where
  "removeMessageHandler mid s = s\<lparr>messages := (messages s)(mid := None)\<rparr>"

definition saveServerList :: "string \<Rightarrow> string list \<Rightarrow> int \<Rightarrow> client \<Rightarrow> client" where
  "saveServerList name list now s = put_timestamp name now (put_server name list s)"

text \<open>
  \<open>_removeServer\<close> (lines 324 to 337). When \<open>this._servers[name]\<close> is truthy and has a
  positive \<open>length\<close>, line 328 calls its \<open>filter\<close>. An array has one. An inherited function
  or string has none, and the call throws a \<open>TypeError\<close>: the result is \<open>Inl\<close>, and nothing
  of \<open>_removeServer\<close> has happened.
\<close>

definition has_positive_length :: "looked \<Rightarrow> bool" where
  "has_positive_length v \<longleftrightarrow>
     truthy_looked v \<and> (case js_length v of None \<Rightarrow> False | Some n \<Rightarrow> n > 0)"

definition removeServer :: "string option \<Rightarrow> string \<Rightarrow> client \<Rightarrow> string + client" where
  "removeServer serverId name s =
     (let remote = (\<lambda>s1. if \<not> c_notAutoCleanRemoteServer s1
                         then emit (Del (key s1 [''S'', name, seg serverId])) s1
                         else s1)
      in if has_positive_length (get_server s name)
         then (case get_server s name of
                 LArray xs \<Rightarrow>
                   Inr (remote (put_server name (filter (\<lambda>item. Some item \<noteq> serverId) xs) s))
               | _ \<Rightarrow> Inl ''TypeError'')
         else Inr (remote s))"

definition sendCallRequest :: "string option \<Rightarrow> envelope \<Rightarrow> client \<Rightarrow> client" where
  "sendCallRequest serverId msg s = emit (Publish (key s [''L'', seg serverId]) msg) s"

text \<open>
  The body of the interval function of \<open>_autoClearServerList\<close> (lines 93 to 104). It walks
  \<open>Object.keys(me._servers)\<close>, the own properties. For a name without an own timestamp,
  \<open>me._serversTimestamp[name]\<close> is \<open>undefined\<close> or an inherited function, and \<open><=\<close> compares
  \<open>NaN\<close>, which is false.
\<close>

definition clearServerList :: "int \<Rightarrow> client \<Rightarrow> client" where
  "clearServerList now s =
     (let t = now - c_serverMaxAge s * 1000;
          old = (\<lambda>name. servers s name \<noteq> None \<and>
                   (case serversTimestamp s name of None \<Rightarrow> False | Some ts \<Rightarrow> ts \<le> t))
      in s\<lparr>servers := (\<lambda>name. if old name then None else servers s name),
            serversTimestamp := (\<lambda>name. if old name then None else serversTimestamp s name)\<rparr>)"

section \<open>call, bind and the closures they create\<close>

text \<open>
  \<open>f.apply(null, arguments)\<close> for a value \<open>f\<close> that came from the caller: a callback, an
  \<open>onRetry\<close>. What a function of the caller does is not the client's code; the
  application is recorded. Every such application is the last statement of its turn, so
  when the caller's function (or a \<open>call\<close> closure handed to it) calls back into the client,
  that is the next turn (\<open>ECall\<close>, \<open>EBound\<close>, \<open>EBoundCall\<close> below).
\<close>

definition applyFn :: "jsval \<Rightarrow> jsval list \<Rightarrow> client \<Rightarrow> client" where
  "applyFn f arguments s =
     (if is_function f then emit (Apply f arguments) s else emit (Throw ''TypeError'') s)"

text \<open>
  \<open>fn.apply(null, arguments)\<close> for a built-in function \<open>fn\<close> that \<open>_messages\<close> inherits under
  the name \<open>k\<close>. The application is recorded. \<open>valueOf\<close>, \<open>toLocaleString\<close>,
  \<open>hasOwnProperty\<close> and \<open>propertyIsEnumerable\<close> convert \<open>this\<close> to an object, which for \<open>null\<close>
  is a \<open>TypeError\<close> (ECMAScript 5.1, sections 15.2.4.3 to 15.2.4.7, and 9.9); what the
  others do is left open.
\<close>

definition applyInherited :: "string \<Rightarrow> jsval list \<Rightarrow> client \<Rightarrow> client" where
  "applyInherited k arguments s =
     (let s1 = emit (Inherited k arguments) s
      in if k \<in> set [''valueOf'', ''toLocaleString'', ''hasOwnProperty'',
                       ''propertyIsEnumerable'']
         then emit (Throw ''TypeError'') s1
         else s1)"

text \<open>
  \<open>call\<close> hands \<open>_findOneServer\<close> the function of lines 123 to 129 (\<open>found\<close> below), which
  calls \<open>cb\<close>, which applies the callback, which for a bound caller is \<open>onCallback\<close>, which
  may call \<open>call\<close> again. The source is recursive through these closures, and so is the
  model. A key scan is answered in a later turn, so \<open>_findOneServer\<close> reaches
  \<open>returnOneServer\<close> in the same turn only with a cached list that is not empty.
\<close>

function
  call :: "string \<Rightarrow> jsval list \<Rightarrow> callback \<Rightarrow> env \<Rightarrow> client \<Rightarrow> client" and
  findOneServer :: "string \<Rightarrow> nat \<Rightarrow> env \<Rightarrow> client \<Rightarrow> client" and
  returnOneServer :: "string \<Rightarrow> nat \<Rightarrow> env \<Rightarrow> client \<Rightarrow> client" and
  found :: "nat \<Rightarrow> jsval \<Rightarrow> string option \<Rightarrow> env \<Rightarrow> client \<Rightarrow> client" and
  cb :: "nat \<Rightarrow> jsval list \<Rightarrow> env \<Rightarrow> client \<Rightarrow> client" and
  onCallback :: "nat \<Rightarrow> jsval list \<Rightarrow> env \<Rightarrow> client \<Rightarrow> client" and
  tryAgain :: "nat \<Rightarrow> env \<Rightarrow> client \<Rightarrow> client" and
  start :: "nat \<Rightarrow> env \<Rightarrow> client \<Rightarrow> client" and
  bound_call :: "nat \<Rightarrow> jsval list \<Rightarrow> env \<Rightarrow> client \<Rightarrow> client"
where
  "call name args callback e s =
     (let c = length (calls s);
          s0 = s\<lparr>calls := calls s @
                 [\<lparr>cc_name = name, cc_args = args, cc_callback = callback,
                   cc_msg = pocketCallMessage (c_id s) name args e,
                   cc_serverId = None, cc_hasCallback = False, cc_tid = None\<rparr>]\<rparr>;
          s1 = findOneServer name c e s0;
          s2 = upd_call c (\<lambda>x. x\<lparr>cc_hasCallback := False\<rparr>) s1;
          tid = nextTimer s2;
          s3 = setTimeout (CheckTimeout c) (c_timeout s2 * 1000) (e_now e) s2
      in upd_call c (\<lambda>x. x\<lparr>cc_tid := Some tid\<rparr>) s3)"
| "findOneServer name c e s =
     (let s1 = (case get_server s name of LArray xs \<Rightarrow> s | _ \<Rightarrow> put_server name [] s)
      in if nullish (get_server s1 name) then emit (Throw ''TypeError'') s1
         else if length_below_1 (get_server s1 name)
         then (emit (Keys (key s1 [''S'', name, ''*''])) s1)
                \<lparr>scans := (scans s1)(nextScan s1 \<mapsto> (name, c)), nextScan := Suc (nextScan s1)\<rparr>
         else returnOneServer name c e s1)"
| "returnOneServer name c e s =
     (if nullish (get_server s name) then emit (Throw ''TypeError'') s
      else if length_below_1 (get_server s name) then found c no_server_error None e s
      else found c VNull (js_element (get_server s name) (e_rnd e)) e s)"
| "found c err ret e s =
     (if truthy err then cb c [err] e s
      else let msg = cc_msg (calls s ! c);
               s1 = upd_call c (\<lambda>x. x\<lparr>cc_serverId := ret\<rparr>) s;
               s2 = put_message (m_id msg) c s1
           in sendCallRequest ret msg s2)"
| "cb c arguments e s =
     (if cc_hasCallback (calls s ! c) then s
      else let s1 = upd_call c (\<lambda>x. x\<lparr>cc_hasCallback := True\<rparr>) s;
               s2 = clearTimeout (cc_tid (calls s1 ! c)) s1;
               s3 = emit (Completed c arguments) s2
           in (case cc_callback (calls s3 ! c) of
                 Given f \<Rightarrow> applyFn f arguments s3
               | OnCallback i \<Rightarrow> onCallback i arguments e s3))"
| "onCallback i arguments e s =
     (let err = (case arguments of [] \<Rightarrow> VUndefined | a # as \<Rightarrow> a);
          b = binds s ! i_bind (invs s ! i)
      in if truthy err \<and> i_retryCounter (invs s ! i) < b_retry b
         then (if code err = Some ''CLOUDS_CALL_SERVICE_TIMEOUT'' then tryAgain i e s
               else if code err = Some ''CLOUDS_NO_AVAILABLE_SERVER''
               then setTimeout (TryAgain i) (b_timeout b) (e_now e) s
               else applyFn (i_callback (invs s ! i)) arguments s)
         else applyFn (i_callback (invs s ! i)) arguments s)"
| "tryAgain i e s =
     start i e (upd_inv i (\<lambda>x. x\<lparr>i_retryCounter := i_retryCounter x + 1\<rparr>) s)"
| "start i e s =
     (case b_onRetry (binds s ! i_bind (invs s ! i)) of
        Supplied f \<Rightarrow> applyFn f (i_args (invs s ! i) @ [VCall i]) s
      | Default j \<Rightarrow> bound_call j (i_args (invs s ! j)) e s)"
| "bound_call i args e s =
     call (b_name (binds s ! i_bind (invs s ! i))) args (OnCallback i) e s"
  by pat_completeness auto

text \<open>
  Termination: every closure calls only closures further down the chain
  \<open>cb\<close>, \<open>onCallback\<close>, \<open>tryAgain\<close>, \<open>start\<close>, \<open>call\<close>,
  \<open>_findOneServer\<close>, and \<open>_findOneServer\<close> enters \<open>returnOneServer\<close> with a list whose
  \<open>length\<close> is not below 1, where \<open>found\<close> gets no error and does not call \<open>cb\<close>.
\<close>

termination
proof (relation "measure (\<lambda>x. case x of
    Inl a \<Rightarrow> (case a of
        Inl b \<Rightarrow> (case b of Inl _ \<Rightarrow> 4 | Inr _ \<Rightarrow> 3)
      | Inr b \<Rightarrow> (case b of
            Inl (name, c, e, s) \<Rightarrow> if length_below_1 (get_server s name) then 12 else 2
          | Inr (c, err, ret, e, s) \<Rightarrow> if truthy err then 11 else 1))
  | Inr a \<Rightarrow> (case a of
        Inl b \<Rightarrow> (case b of Inl _ \<Rightarrow> 10 | Inr _ \<Rightarrow> 9)
      | Inr b \<Rightarrow> (case b of
            Inl _ \<Rightarrow> 8
          | Inr d \<Rightarrow> (case d of Inl _ \<Rightarrow> 7 | Inr _ \<Rightarrow> (5::nat)))))", goal_cases)
  case 1 show ?case by simp
next
  case 2 show ?case by simp
next
  case 3 then show ?case by simp
next
  case 4 then show ?case by simp
next
  case 5 then show ?case by (auto simp: no_server_error_def)
next
  case 6 then show ?case by simp
qed simp_all

declare call.simps [simp del] findOneServer.simps [simp del] returnOneServer.simps [simp del]
  found.simps [simp del] cb.simps [simp del] onCallback.simps [simp del]
  tryAgain.simps [simp del] start.simps [simp del]
  bound_call.simps [simp del]

section \<open>The turns of the event loop\<close>

text \<open>The function handed to \<open>keys\<close> in \<open>_findOneServer\<close> (lines 241 to 251). A list that
  is not an array is \<open>None\<close>.\<close>

definition keysReply ::
  "string \<Rightarrow> nat \<Rightarrow> jsval \<Rightarrow> string list option \<Rightarrow> env \<Rightarrow> client \<Rightarrow> client" where
  "keysReply name c err list e s =
     (if truthy err then found c err None e s
      else let list1 = (case list of None \<Rightarrow> [] | Some l \<Rightarrow> l);
               list2 = map last_segment list1
           in returnOneServer name c e (saveServerList name list2 (e_now e) s))"

text \<open>\<open>checkTimeout\<close> of \<open>call\<close> (lines 148 to 160). When \<open>_removeServer\<close> throws, the turn
  ends there, before \<open>cb\<close>.\<close>

definition checkTimeout :: "nat \<Rightarrow> env \<Rightarrow> client \<Rightarrow> client" where
  "checkTimeout c e s =
     (let s1 = removeMessageHandler (m_id (cc_msg (calls s ! c))) s
      in case removeServer (cc_serverId (calls s1 ! c)) (cc_name (calls s1 ! c)) s1 of
           Inl err \<Rightarrow> emit (Throw err) s1
         | Inr s2 \<Rightarrow> cb c [timeout_error] e s2)"

text \<open>\<open>_handleCallResult\<close> (lines 302 to 314). \<open>typeof fn\<close> is \<open>'function'\<close> for the \<open>cb\<close> of a
  call and for an inherited built-in function.\<close>

definition handleCallResult :: "envelope \<Rightarrow> env \<Rightarrow> client \<Rightarrow> client" where
  "handleCallResult msg e s =
     (let arguments = (if truthy (m_error msg) then m_error msg else VNull) # m_args msg
      in case get_message s (m_id msg) of
           LHandler c \<Rightarrow> cb c arguments e (removeMessageHandler (m_id msg) s)
         | LFunction n \<Rightarrow> applyInherited (m_id msg) arguments (removeMessageHandler (m_id msg) s)
         | _ \<Rightarrow> s)"

definition handleMessage :: "envelope \<Rightarrow> env \<Rightarrow> client \<Rightarrow> client" where
  "handleMessage msg e s =
     (if m_type msg = ''result'' then handleCallResult msg e s else s)"

text \<open>The listener of the event \<open>message\<close> installed by \<open>_listen\<close> (lines 77 to 86);
  \<open>msg\<close> is the message as \<open>utils.parseMessage\<close> decodes it.\<close>

definition on_message :: "string \<Rightarrow> envelope \<Rightarrow> env \<Rightarrow> client \<Rightarrow> client" where
  "on_message channel msg e s =
     (if channel \<noteq> listenKey s then s else handleMessage msg e s)"

definition listen :: "client \<Rightarrow> client" where
  "listen s = (let k = key s [''L'', c_id s] in (emit (Subscribe k) s)\<lparr>listenKey := k\<rparr>)"

definition autoClearServerList :: "client \<Rightarrow> client" where
  "autoClearServerList s =
     (setTimeout ClearServerList (c_serverMaxAge s * 500) 0 s)\<lparr>clearServerListTid := nextTimer s\<rparr>"

text \<open>The defaults of \<open>lib/define.js\<close>.\<close>

definition define_timeout :: int where "define_timeout = 60"

definition define_serverMaxAge :: int where "define_serverMaxAge = 60"

definition define_redisPrefix :: string where "define_redisPrefix = ''clouds''"

record options =
  o_timeout :: "int option"
  o_serverMaxAge :: "int option"
  o_prefix :: "string option"
  o_notAutoCleanRemoteServer :: bool

text \<open>The constructor (lines 20 to 44); \<open>uid\<close> is what \<open>utils.uniqueId('client')\<close> returns.\<close>

definition CloudsClient :: "options \<Rightarrow> string \<Rightarrow> client" where
  "CloudsClient options uid =
     (let timeout = (case o_timeout options of
                       None \<Rightarrow> define_timeout
                     | Some t \<Rightarrow> if \<not> t > 0 then define_timeout else t);
          serverMaxAge = (case o_serverMaxAge options of
                       None \<Rightarrow> define_serverMaxAge
                     | Some t \<Rightarrow> if \<not> t > 0 then define_serverMaxAge else t);
          prefix = (case o_prefix options of
                       None \<Rightarrow> define_redisPrefix
                     | Some p \<Rightarrow> if p \<noteq> [] then p else define_redisPrefix);
          s = \<lparr>c_id = uid, c_timeout = timeout, c_prefix = prefix,
               c_serverMaxAge = serverMaxAge,
               c_notAutoCleanRemoteServer = o_notAutoCleanRemoteServer options,
               messages = Map.empty, messages_proto = None,
               servers = Map.empty, servers_proto = None, serversTimestamp = Map.empty,
               clearServerListTid = 0, listenKey = [], calls = [], binds = [], invs = [],
               timers = Map.empty, due = (\<lambda>tid. 0), nextTimer = 0,
               scans = Map.empty, nextScan = 0,
               out = []\<rparr>
      in listen (autoClearServerList s))"

text \<open>\<open>bind\<close> up to its \<open>return\<close> (lines 175 to 183); the function it returns is the
  address of the new closure, \<open>length (binds s)\<close>.\<close>

definition bind :: "string \<Rightarrow> int \<Rightarrow> jsval \<Rightarrow> client \<Rightarrow> client" where
  "bind name retry onRetry s =
     (let retry1 = (if \<not> retry > 0 then 0 else retry);
          timeout = c_timeout s * 1000;
          timeout1 = (if \<not> timeout > 0 then 0 else timeout)
      in s\<lparr>binds := binds s @
            [\<lparr>b_name = name, b_retry = retry1, b_timeout = timeout1,
              b_onRetry = Supplied onRetry\<rparr>]\<rparr>)"

text \<open>The function \<open>bind\<close> returns (lines 184 to 230), applied to \<open>arguments\<close>.\<close>

definition bound :: "nat \<Rightarrow> jsval list \<Rightarrow> env \<Rightarrow> client \<Rightarrow> string + client" where
  "bound b arguments e s =
     (let args = butlast arguments;
          callback = (if arguments = [] then VUndefined else last arguments)
      in if \<not> is_function callback then Inl ''must provide a callback function''
         else
           let i = length (invs s);
               s1 = s\<lparr>invs := invs s @
                      [\<lparr>i_bind = b, i_args = args, i_callback = callback,
                        i_retryCounter = 0\<rparr>]\<rparr>;
               s2 = (case b_onRetry (binds s1 ! b) of
                       Supplied f \<Rightarrow>
                         if \<not> is_function f
                         then upd_bind b (\<lambda>x. x\<lparr>b_onRetry := Default i\<rparr>) s1
                         else s1
                     | Default j \<Rightarrow> s1)
           in Inr (start i e s2))"

text \<open>\<open>_callback\<close> (lines 56 to 64): the function itself, or one that only writes a debug
  line.\<close>

datatype handler = Function jsval | Debug

definition callback_or_debug :: "jsval \<Rightarrow> handler" where
  "callback_or_debug fn = (if \<not> is_function fn then Debug else Function fn)"

definition exit :: "jsval \<Rightarrow> client \<Rightarrow> client" where
  "exit callback s =
     (let s1 = clearTimeout (Some (clearServerListTid s)) s;
          s2 = emit (End ''cp'') s1;
          s3 = emit (End ''cs'') s2;
          fn = callback_or_debug callback
      in s3)"

text \<open>The turn of a timer. A timer that is not armed, or not due yet, does not fire. A
  timeout is gone when it has fired; the interval stays, and is due again one delay after
  this turn.\<close>

definition fires :: "nat \<Rightarrow> env \<Rightarrow> client \<Rightarrow> client" where
  "fires tid e s =
     (case timers s tid of
        None \<Rightarrow> s
      | Some (f, d) \<Rightarrow>
          if e_now e < due s tid then s
          else (case f of
                  CheckTimeout c \<Rightarrow> checkTimeout c e (s\<lparr>timers := (timers s)(tid := None)\<rparr>)
                | TryAgain i \<Rightarrow> tryAgain i e (s\<lparr>timers := (timers s)(tid := None)\<rparr>)
                | ClearServerList \<Rightarrow>
                    clearServerList (e_now e) (s\<lparr>due := (due s)(tid := e_now e + d)\<rparr>)))"

datatype event =
    ECall string "jsval list" jsval      \<comment> \<open>\<open>client.call(name, args, callback)\<close>\<close>
  | EBind string int jsval               \<comment> \<open>\<open>client.bind(name, retry, onRetry)\<close>\<close>
  | EBound nat "jsval list"              \<comment> \<open>a bound caller is applied\<close>
  | EBoundCall nat "jsval list"          \<comment> \<open>the caller's \<open>onRetry\<close> applies the \<open>call\<close> it got\<close>
  | ETimer nat
  | EKeys nat jsval "string list option" \<comment> \<open>the answer to a key scan\<close>
  | EMessage string envelope
  | EExit jsval

definition step :: "env \<Rightarrow> event \<Rightarrow> client \<Rightarrow> client" where
  "step e ev s =
     (case ev of
        ECall name args callback \<Rightarrow> call name args (Given callback) e s
      | EBind name retry onRetry \<Rightarrow> bind name retry onRetry s
      | EBound b arguments \<Rightarrow>
          if b < length (binds s)
          then (case bound b arguments e s of Inl msg \<Rightarrow> s | Inr s1 \<Rightarrow> s1)
          else s
      | EBoundCall i args \<Rightarrow> if i < length (invs s) then bound_call i args e s else s
      | ETimer tid \<Rightarrow> fires tid e s
      | EKeys rid err list \<Rightarrow>
          (case scans s rid of
             None \<Rightarrow> s
           | Some (name, c) \<Rightarrow> keysReply name c err list e (s\<lparr>scans := (scans s)(rid := None)\<rparr>))
      | EMessage channel msg \<Rightarrow> on_message channel msg e s
      | EExit callback \<Rightarrow> exit callback s)"

fun run :: "(env \<times> event) list \<Rightarrow> client \<Rightarrow> client" where
  "run [] s = s"
| "run ((e, ev) # evs) s = run evs (step e ev s)"

fun is_completed :: "nat \<Rightarrow> effect \<Rightarrow> bool" where
  "is_completed c (Completed c' a) = (c' = c)"
| "is_completed c x = False"

fun is_publish :: "effect \<Rightarrow> bool" where
  "is_publish (Publish k m) = True"
| "is_publish x = False"

definition completions :: "nat \<Rightarrow> client \<Rightarrow> nat" where
  "completions c s = length (filter (is_completed c) (out s))"

section \<open>What a run shows\<close>

fun is_del :: "effect \<Rightarrow> bool" where
  "is_del (Del k) = True"
| "is_del x = False"

fun is_apply :: "effect \<Rightarrow> bool" where
  "is_apply (Apply f a) = True"
| "is_apply x = False"

text \<open>
  What holds after the constructor and after every turn: a call whose latch \<open>hasCallback\<close>
  is still open has not applied its callback, no call has applied it twice, a timeout
  that is armed belongs to a call with an open latch and is the one its \<open>tid\<close> names,
  timer ids are fresh, and the pending handlers and scans refer to calls that exist.
\<close>

definition consistent :: "client \<Rightarrow> bool" where
  "consistent s \<longleftrightarrow>
     (\<forall>c. completions c s \<le> 1)
     \<and> (\<forall>c. c < length (calls s) \<longrightarrow> \<not> cc_hasCallback (calls s ! c) \<longrightarrow> completions c s = 0)
     \<and> (\<forall>c. length (calls s) \<le> c \<longrightarrow> completions c s = 0)
     \<and> (\<forall>tid c d. timers s tid = Some (CheckTimeout c, d) \<longrightarrow>
           c < length (calls s) \<and> \<not> cc_hasCallback (calls s ! c)
           \<and> cc_tid (calls s ! c) = Some tid)
     \<and> (\<forall>tid. timers s tid \<noteq> None \<longrightarrow> tid < nextTimer s)
     \<and> (\<forall>mid c. messages s mid = Some c \<longrightarrow> c < length (calls s))
     \<and> (\<forall>c. messages_proto s = Some c \<longrightarrow> c < length (calls s))
     \<and> (\<forall>rid name c. scans s rid = Some (name, c) \<longrightarrow> c < length (calls s))
     \<and> clearServerListTid s < nextTimer s
     \<and> (\<forall>c d. timers s (clearServerListTid s) \<noteq> Some (CheckTimeout c, d))"

text \<open>
  After the latch of a call has closed, the rest of the turn is the callback: a function
  of the caller, or \<open>onCallback\<close>, which may retry. Whatever it does, it appends effects
  that are neither completions nor deletions of a key.
\<close>

definition after :: "client \<Rightarrow> client \<Rightarrow> bool" where
  "after s s' \<longleftrightarrow>
     (\<exists>ys. out s' = out s @ ys \<and> (\<forall>y\<in>set ys. \<not> is_del y \<and> (\<forall>c. \<not> is_completed c y)))"

text \<open>The turn of the sweep timer at the moment it is due.\<close>

definition tick :: "client \<Rightarrow> client" where
  "tick s =
     step \<lparr>e_msg_id = [], e_rnd = 0, e_now = due s (clearServerListTid s)\<rparr>
       (ETimer (clearServerListTid s)) s"

section \<open>Example runs\<close>

definition example_options :: options where
  "example_options =
     \<lparr>o_timeout = None, o_serverMaxAge = Some 2, o_prefix = None,
      o_notAutoCleanRemoteServer = False\<rparr>"

definition turn :: "string \<Rightarrow> int \<Rightarrow> env" where
  "turn mid now = \<lparr>e_msg_id = mid, e_rnd = 0, e_now = now\<rparr>"

definition example_dispatched :: client where
  "example_dispatched =
     run [(turn ''m1'' 0, ECall ''svc'' [VNum 1] (VFun 7)),
          (turn [] 0, EKeys 0 VNull (Some [''clouds:S:svc:srv1'']))]
       (CloudsClient example_options ''c1'')"

definition example_result :: envelope where
  "example_result =
     \<lparr>m_id = ''m1'', m_sender = ''srv1'', m_type = ''result'', m_name = [],
      m_args = [VNum 42], m_error = VNull\<rparr>"

definition example_no_server :: client where
  "example_no_server =
     run [(turn ''m1'' 0, ECall ''svc'' [VNum 1] (VFun 7)),
          (turn [] 5, EKeys 0 VNull (Some []))]
       (CloudsClient example_options ''c1'')"

definition example_completed :: client where
  "example_completed =
     run [(turn ''m1'' 0, ECall ''svc'' [VNum 1] (VFun 7)),
          (turn [] 0, EKeys 0 VNull (Some [''clouds:S:svc:srv1''])),
          (turn [] 9, EMessage ''clouds:L:c1'' example_result)]
       (CloudsClient example_options ''c1'')"

definition example_called :: client where
  "example_called =
     step (turn ''m1'' 0) (ECall ''svc'' [VNum 1] (VFun 7)) (CloudsClient example_options ''c1'')"

definition example_bound_twice :: client where
  "example_bound_twice =
     run [(turn [] 0, EBind ''svc'' 0 VUndefined),
          (turn ''m1'' 1, EBound 0 [VNum 1, VFun 7]),
          (turn ''m2'' 2, EBound 0 [VNum 2, VFun 8])]
       (CloudsClient example_options ''c1'')"

text \<open>The options all left out, which gives the defaults of \<open>lib/define.js\<close>: a timeout
  of 60 s, a \<open>serverMaxAge\<close> of 60 s and so a sweep every 30 s.\<close>

definition default_options :: options where
  "default_options =
     \<lparr>o_timeout = None, o_serverMaxAge = None, o_prefix = None,
      o_notAutoCleanRemoteServer = False\<rparr>"

text \<open>A service named \<open>constructor\<close>: a first call is answered, a second call is dispatched
  at 50 s from the cached list, and the sweep at 90 s removes the list, which was
  stored at 5 ms.\<close>

definition example_inherited_name :: client where
  "example_inherited_name =
     run [(turn ''m1'' 0, ECall ''constructor'' [VNum 1] (VFun 7)),
          (turn [] 5, EKeys 0 VNull (Some [''clouds:S:constructor:srv1''])),
          (turn [] 9, EMessage ''clouds:L:c1'' example_result),
          (turn [] 30000, ETimer 0),
          (turn ''m2'' 50000, ECall ''constructor'' [VNum 2] (VFun 8)),
          (turn [] 60000, ETimer 0),
          (turn [] 90000, ETimer 0)]
       (CloudsClient default_options ''c1'')"

text \<open>A result that answers no call, under an id that \<open>Object.prototype\<close> has a member
  for.\<close>

definition example_unknown_result :: envelope where
  "example_unknown_result =
     \<lparr>m_id = ''hasOwnProperty'', m_sender = ''srv1'', m_type = ''result'', m_name = [],
      m_args = [VNum 42], m_error = VNull\<rparr>"

text \<open>\<open>var f = client.bind('svc', 2)\<close> with the default options; \<open>f(1, fn7)\<close> at 1 ms, and
  every dispatch times out; then \<open>f(2, fn8)\<close> at 180002 ms, and its dispatch times out
  too. The sweep ticks every 30 s.\<close>

definition example_first_invocation :: "(env \<times> event) list" where
  "example_first_invocation =
     [(turn [] 0, EBind ''svc'' 2 VUndefined),
      (turn ''m1'' 1, EBound 0 [VNum 1, VFun 7]),
      (turn [] 2, EKeys 0 VNull (Some [''clouds:S:svc:srv1''])),
      (turn [] 30000, ETimer 0),
      (turn [] 60000, ETimer 0),
      (turn ''m2'' 60001, ETimer 1),
      (turn [] 60002, EKeys 1 VNull (Some [''clouds:S:svc:srv1''])),
      (turn [] 90000, ETimer 0),
      (turn [] 120000, ETimer 0),
      (turn ''m3'' 120001, ETimer 2),
      (turn [] 120002, EKeys 2 VNull (Some [''clouds:S:svc:srv1''])),
      (turn [] 150000, ETimer 0),
      (turn [] 180000, ETimer 0),
      (turn [] 180001, ETimer 3)]"

definition example_second_invocation :: "(env \<times> event) list" where
  "example_second_invocation =
     [(turn ''m4'' 180002, EBound 0 [VNum 2, VFun 8]),
      (turn [] 180003, EKeys 3 VNull (Some [''clouds:S:svc:srv1''])),
      (turn [] 210000, ETimer 0),
      (turn [] 240000, ETimer 0),
      (turn [] 240002, ETimer 4)]"

definition example_invoked_once :: client where
  "example_invoked_once = run example_first_invocation (CloudsClient default_options ''c1'')"

definition example_invoked_twice :: client where
  "example_invoked_twice = run example_second_invocation example_invoked_once"

section \<open>Basic facts\<close>

lemma put_server_fields [simp]:
  "calls (put_server name l s) = calls s"
  "binds (put_server name l s) = binds s"
  "invs (put_server name l s) = invs s"
  "out (put_server name l s) = out s"
  "timers (put_server name l s) = timers s"
  "due (put_server name l s) = due s"
  "nextTimer (put_server name l s) = nextTimer s"
  "scans (put_server name l s) = scans s"
  "nextScan (put_server name l s) = nextScan s"
  "messages (put_server name l s) = messages s"
  "messages_proto (put_server name l s) = messages_proto s"
  "serversTimestamp (put_server name l s) = serversTimestamp s"
  "clearServerListTid (put_server name l s) = clearServerListTid s"
  "listenKey (put_server name l s) = listenKey s"
  "c_id (put_server name l s) = c_id s"
  "c_prefix (put_server name l s) = c_prefix s"
  "c_timeout (put_server name l s) = c_timeout s"
  "c_serverMaxAge (put_server name l s) = c_serverMaxAge s"
  "c_notAutoCleanRemoteServer (put_server name l s) = c_notAutoCleanRemoteServer s"
  by (simp_all add: put_server_def)

lemma put_timestamp_fields [simp]:
  "calls (put_timestamp name t s) = calls s"
  "binds (put_timestamp name t s) = binds s"
  "invs (put_timestamp name t s) = invs s"
  "out (put_timestamp name t s) = out s"
  "timers (put_timestamp name t s) = timers s"
  "due (put_timestamp name t s) = due s"
  "nextTimer (put_timestamp name t s) = nextTimer s"
  "scans (put_timestamp name t s) = scans s"
  "nextScan (put_timestamp name t s) = nextScan s"
  "messages (put_timestamp name t s) = messages s"
  "messages_proto (put_timestamp name t s) = messages_proto s"
  "servers (put_timestamp name t s) = servers s"
  "servers_proto (put_timestamp name t s) = servers_proto s"
  "clearServerListTid (put_timestamp name t s) = clearServerListTid s"
  "listenKey (put_timestamp name t s) = listenKey s"
  "c_id (put_timestamp name t s) = c_id s"
  "c_prefix (put_timestamp name t s) = c_prefix s"
  "c_timeout (put_timestamp name t s) = c_timeout s"
  "c_serverMaxAge (put_timestamp name t s) = c_serverMaxAge s"
  "c_notAutoCleanRemoteServer (put_timestamp name t s) = c_notAutoCleanRemoteServer s"
  by (simp_all add: put_timestamp_def)

lemma put_message_fields [simp]:
  "calls (put_message mid c s) = calls s"
  "binds (put_message mid c s) = binds s"
  "invs (put_message mid c s) = invs s"
  "out (put_message mid c s) = out s"
  "timers (put_message mid c s) = timers s"
  "due (put_message mid c s) = due s"
  "nextTimer (put_message mid c s) = nextTimer s"
  "scans (put_message mid c s) = scans s"
  "nextScan (put_message mid c s) = nextScan s"
  "servers (put_message mid c s) = servers s"
  "servers_proto (put_message mid c s) = servers_proto s"
  "serversTimestamp (put_message mid c s) = serversTimestamp s"
  "clearServerListTid (put_message mid c s) = clearServerListTid s"
  "listenKey (put_message mid c s) = listenKey s"
  "c_id (put_message mid c s) = c_id s"
  "c_prefix (put_message mid c s) = c_prefix s"
  "c_timeout (put_message mid c s) = c_timeout s"
  "c_serverMaxAge (put_message mid c s) = c_serverMaxAge s"
  "c_notAutoCleanRemoteServer (put_message mid c s) = c_notAutoCleanRemoteServer s"
  by (simp_all add: put_message_def)

lemma length_below_1_LArray [simp]: "length_below_1 (LArray xs) \<longleftrightarrow> xs = []"
  by (simp add: length_below_1_def)

lemma has_positive_length_LArray [simp]: "has_positive_length (LArray xs) \<longleftrightarrow> xs \<noteq> []"
  by (simp add: has_positive_length_def)

lemma get_server_put_server [simp]: "get_server (put_server name l s) name = LArray l"
  by (simp add: get_server_def put_server_def)

lemma get_server_saveServerList [simp]:
  "get_server (saveServerList name l now s) name = LArray l"
  by (simp add: get_server_def put_server_def put_timestamp_def saveServerList_def)

lemma get_server_cong:
  "servers s' = servers s \<Longrightarrow> servers_proto s' = servers_proto s \<Longrightarrow>
     get_server s' = get_server s"
  by (simp add: get_server_def fun_eq_iff split: option.splits)

lemma get_message_cong:
  "messages s' = messages s \<Longrightarrow> messages_proto s' = messages_proto s \<Longrightarrow>
     get_message s' = get_message s"
  by (simp add: get_message_def fun_eq_iff split: option.splits)

lemma get_server_update [simp]:
  "get_server (s\<lparr>calls := a\<rparr>) = get_server s"
  "get_server (s\<lparr>binds := b\<rparr>) = get_server s"
  "get_server (s\<lparr>invs := i\<rparr>) = get_server s"
  "get_server (s\<lparr>out := x\<rparr>) = get_server s"
  "get_server (s\<lparr>timers := t\<rparr>) = get_server s"
  "get_server (s\<lparr>due := d\<rparr>) = get_server s"
  "get_server (s\<lparr>nextTimer := n\<rparr>) = get_server s"
  "get_server (s\<lparr>scans := sc\<rparr>) = get_server s"
  "get_server (s\<lparr>nextScan := n\<rparr>) = get_server s"
  "get_server (s\<lparr>messages := m\<rparr>) = get_server s"
  "get_server (s\<lparr>messages_proto := mp\<rparr>) = get_server s"
  "get_server (s\<lparr>serversTimestamp := ts\<rparr>) = get_server s"
  "get_server (s\<lparr>clearServerListTid := n\<rparr>) = get_server s"
  "get_server (s\<lparr>listenKey := k\<rparr>) = get_server s"
  by (rule get_server_cong; simp)+

lemma get_message_update [simp]:
  "get_message (s\<lparr>calls := a\<rparr>) = get_message s"
  "get_message (s\<lparr>binds := b\<rparr>) = get_message s"
  "get_message (s\<lparr>invs := i\<rparr>) = get_message s"
  "get_message (s\<lparr>out := x\<rparr>) = get_message s"
  "get_message (s\<lparr>timers := t\<rparr>) = get_message s"
  "get_message (s\<lparr>due := d\<rparr>) = get_message s"
  "get_message (s\<lparr>nextTimer := n\<rparr>) = get_message s"
  "get_message (s\<lparr>scans := sc\<rparr>) = get_message s"
  "get_message (s\<lparr>nextScan := n\<rparr>) = get_message s"
  "get_message (s\<lparr>servers := m\<rparr>) = get_message s"
  "get_message (s\<lparr>servers_proto := mp\<rparr>) = get_message s"
  "get_message (s\<lparr>serversTimestamp := ts\<rparr>) = get_message s"
  "get_message (s\<lparr>clearServerListTid := n\<rparr>) = get_message s"
  "get_message (s\<lparr>listenKey := k\<rparr>) = get_message s"
  by (rule get_message_cong; simp)+

lemma get_server_put_message [simp]: "get_server (put_message mid c s) = get_server s"
  by (rule get_server_cong; simp)

lemma get_server_put_timestamp [simp]: "get_server (put_timestamp name t s) = get_server s"
  by (rule get_server_cong; simp)

lemma get_message_put_server [simp]: "get_message (put_server name l s) = get_message s"
  by (rule get_message_cong; simp)

lemma get_message_put_timestamp [simp]: "get_message (put_timestamp name t s) = get_message s"
  by (rule get_message_cong; simp)

lemma found_VNull:
  "found c VNull ret e s =
     sendCallRequest ret (cc_msg (calls s ! c))
       (put_message (m_id (cc_msg (calls s ! c))) c
          (upd_call c (\<lambda>x. x\<lparr>cc_serverId := ret\<rparr>) s))"
  by (simp add: found.simps Let_def)

lemma findOneServer_explicit:
  "findOneServer name c e s =
     (case get_server s name of
        LArray xs \<Rightarrow>
          if xs = []
          then s\<lparr>scans := (scans s)(nextScan s \<mapsto> (name, c)), nextScan := Suc (nextScan s),
                 out := out s @ [Keys (key s [''S'', name, ''*''])]\<rparr>
          else found c VNull (nth_opt xs (e_rnd e)) e s
      | _ \<Rightarrow> (put_server name [] s)
               \<lparr>scans := (scans s)(nextScan s \<mapsto> (name, c)), nextScan := Suc (nextScan s),
                 out := out s @ [Keys (key s [''S'', name, ''*''])]\<rparr>)"
  by (cases "get_server s name")
    (simp_all add: findOneServer.simps returnOneServer.simps emit_def key_def
      length_below_1_def Let_def)

lemma call_explicit:
  "call name args callback e s =
     (let cl = \<lparr>cc_name = name, cc_args = args, cc_callback = callback,
                cc_msg = pocketCallMessage (c_id s) name args e,
                cc_serverId = None, cc_hasCallback = False, cc_tid = Some (nextTimer s)\<rparr>;
          arm = (\<lambda>s1. s1\<lparr>timers := (timers s)(nextTimer s \<mapsto>
                               (CheckTimeout (length (calls s)), c_timeout s * 1000)),
                           due := (due s)(nextTimer s := e_now e + c_timeout s * 1000),
                           nextTimer := Suc (nextTimer s)\<rparr>);
          scan = (\<lambda>s1. s1\<lparr>calls := calls s @ [cl],
                  scans := (scans s)(nextScan s \<mapsto> (name, length (calls s))),
                  nextScan := Suc (nextScan s),
                  out := out s @ [Keys (key s [''S'', name, ''*''])]\<rparr>)
      in case get_server s name of
        LArray xs \<Rightarrow>
          if xs = [] then arm (scan s)
          else arm ((put_message (e_msg_id e) (length (calls s)) s)
                 \<lparr>calls := calls s @ [cl\<lparr>cc_serverId := nth_opt xs (e_rnd e)\<rparr>],
                  out := out s @ [Publish (key s [''L'', seg (nth_opt xs (e_rnd e))])
                                    (pocketCallMessage (c_id s) name args e)]\<rparr>)
      | _ \<Rightarrow> arm (scan (put_server name [] s)))"
  by (cases "get_server s name")
    (simp_all add: call.simps findOneServer_explicit found_VNull setTimeout_def upd_call_def
      Let_def key_def pocketCallMessage_def put_message_def put_server_def
      sendCallRequest_def emit_def)

lemmas client_defs =
  CloudsClient_def listen_def autoClearServerList_def setTimeout_def clearTimeout_def
  emit_def key_def seg_def nth_opt_def upd_call_def upd_inv_def upd_bind_def
  pocketCallMessage_def timeout_error_def no_server_error_def removeMessageHandler_def
  saveServerList_def removeServer_def sendCallRequest_def clearServerList_def applyFn_def
  keysReply_def checkTimeout_def handleCallResult_def handleMessage_def on_message_def
  define_timeout_def define_serverMaxAge_def define_redisPrefix_def bind_def bound_def
  exit_def fires_def step_def example_options_def turn_def completions_def
  get_server_def put_server_def put_timestamp_def get_message_def put_message_def
  object_prototype_def has_positive_length_def length_below_1_def applyInherited_def

lemmas closure_simps =
  call.simps findOneServer.simps returnOneServer.simps found.simps cb.simps onCallback.simps
  tryAgain.simps start.simps bound_call.simps

lemma example_dispatched_fields:
  "listenKey example_dispatched = ''clouds:L:c1''"
  "messages example_dispatched ''m1'' = Some 0"
  "length (calls example_dispatched) = 1"
  "\<not> cc_hasCallback (calls example_dispatched ! 0)"
  "cc_callback (calls example_dispatched ! 0) = Given (VFun 7)"
  "cc_tid (calls example_dispatched ! 0) = Some 1"
  "out example_dispatched =
     [Subscribe ''clouds:L:c1'', Keys ''clouds:S:svc:*'',
      Publish ''clouds:L:srv1'' (pocketCallMessage ''c1'' ''svc'' [VNum 1] (turn ''m1'' 0))]"
  by (simp_all add: example_dispatched_def client_defs call_explicit returnOneServer.simps
      found.simps Let_def)

lemma step_ETimer: "step e (ETimer tid) s = fires tid e s"
  by (simp add: step_def)

lemma example_no_server_fields:
  "servers example_no_server ''svc'' = Some []"
  "serversTimestamp example_no_server ''svc'' = Some 5"
  "timers example_no_server 1 = None"
  "c_prefix example_no_server = ''clouds''"
  "out example_no_server =
     [Subscribe ''clouds:L:c1'', Keys ''clouds:S:svc:*'',
      Completed 0 [no_server_error], Apply (VFun 7) [no_server_error]]"
  by (simp_all add: example_no_server_def client_defs call_explicit returnOneServer.simps
      found.simps cb.simps Let_def)

lemma consistent_frame:
  assumes "consistent s"
    and "calls s' = calls s" and "\<And>c. completions c s' = completions c s"
    and "timers s' = timers s" and "nextTimer s' = nextTimer s"
    and "messages s' = messages s" and "messages_proto s' = messages_proto s"
    and "scans s' = scans s"
    and "clearServerListTid s' = clearServerListTid s"
  shows "consistent s'"
  using assms by (simp add: consistent_def)

lemma completions_emit:
  "completions c (emit x s) = completions c s + (if is_completed c x then 1 else 0)"
  by (simp add: completions_def emit_def)

lemma consistent_emit:
  "consistent s \<Longrightarrow> (\<And>c. \<not> is_completed c x) \<Longrightarrow> consistent (emit x s)"
  by (erule consistent_frame) (simp_all add: completions_emit, simp_all add: emit_def)

lemma consistent_applyFn: "consistent s \<Longrightarrow> consistent (applyFn f a s)"
  by (simp add: applyFn_def consistent_emit)

lemma consistent_applyInherited: "consistent s \<Longrightarrow> consistent (applyInherited k a s)"
  by (simp add: applyInherited_def Let_def consistent_emit)

lemma consistent_upd_inv: "consistent s \<Longrightarrow> consistent (upd_inv i f s)"
  by (erule consistent_frame) (simp_all add: upd_inv_def completions_def)

lemma consistent_upd_bind: "consistent s \<Longrightarrow> consistent (upd_bind i f s)"
  by (erule consistent_frame) (simp_all add: upd_bind_def completions_def)

lemma consistent_removeMessageHandler:
  "consistent s \<Longrightarrow> consistent (removeMessageHandler mid s)"
  by (simp add: consistent_def removeMessageHandler_def completions_def)

lemma consistent_put_server: "consistent s \<Longrightarrow> consistent (put_server name l s)"
  by (erule consistent_frame) (simp_all add: completions_def)

lemma consistent_put_timestamp: "consistent s \<Longrightarrow> consistent (put_timestamp name t s)"
  by (erule consistent_frame) (simp_all add: completions_def)

lemma consistent_saveServerList: "consistent s \<Longrightarrow> consistent (saveServerList name l now s)"
  by (simp add: saveServerList_def consistent_put_server consistent_put_timestamp)

lemma consistent_clearServerList: "consistent s \<Longrightarrow> consistent (clearServerList now s)"
  by (erule consistent_frame) (simp_all add: clearServerList_def completions_def Let_def)

lemma consistent_removeServer:
  "consistent s \<Longrightarrow> removeServer sid name s = Inr s' \<Longrightarrow> consistent s'"
  by (auto simp: removeServer_def Let_def consistent_emit consistent_put_server
      split: if_splits looked.splits)

lemma consistent_bind: "consistent s \<Longrightarrow> consistent (bind name retry onRetry s)"
  by (erule consistent_frame) (simp_all add: bind_def completions_def Let_def)

lemma consistent_setTimeout:
  "consistent s \<Longrightarrow> (\<And>c. f \<noteq> CheckTimeout c) \<Longrightarrow> consistent (setTimeout f d now s)"
  by (auto simp: consistent_def setTimeout_def completions_def less_Suc_eq)

lemma consistent_remove_timer:
  "consistent s \<Longrightarrow> consistent (s\<lparr>timers := (timers s)(tid := None)\<rparr>)"
  by (simp add: consistent_def completions_def)

lemma consistent_due: "consistent s \<Longrightarrow> consistent (s\<lparr>due := d\<rparr>)"
  by (erule consistent_frame) (simp_all add: completions_def)

lemma consistent_remove_scan:
  "consistent s \<Longrightarrow> consistent (s\<lparr>scans := (scans s)(rid := None)\<rparr>)"
  by (simp add: consistent_def completions_def)

lemma consistent_exit: "consistent s \<Longrightarrow> consistent (exit callback s)"
  by (simp add: consistent_def exit_def clearTimeout_def emit_def completions_def Let_def)

lemma consistent_CloudsClient: "consistent (CloudsClient options uid)"
  by (simp add: consistent_def CloudsClient_def listen_def autoClearServerList_def
      setTimeout_def emit_def completions_def Let_def)

lemma consistent_timerD:
  "consistent s \<Longrightarrow> timers s tid = Some (CheckTimeout c, d) \<Longrightarrow>
     c < length (calls s) \<and> \<not> cc_hasCallback (calls s ! c) \<and> cc_tid (calls s ! c) = Some tid"
  unfolding consistent_def by blast

lemma consistent_messageD:
  "consistent s \<Longrightarrow> messages s mid = Some c \<Longrightarrow> c < length (calls s)"
  unfolding consistent_def by blast

lemma consistent_protoD:
  "consistent s \<Longrightarrow> messages_proto s = Some c \<Longrightarrow> c < length (calls s)"
  unfolding consistent_def by blast

lemma consistent_handlerD:
  "consistent s \<Longrightarrow> get_message s mid = LHandler c \<Longrightarrow> c < length (calls s)"
  by (auto simp: get_message_def object_prototype_def function_member_def
      dest: consistent_messageD consistent_protoD split: if_splits option.splits)

lemma consistent_scanD:
  "consistent s \<Longrightarrow> scans s rid = Some (name, c) \<Longrightarrow> c < length (calls s)"
  unfolding consistent_def by blast

lemma consistent_invs_update: "consistent s \<Longrightarrow> consistent (s\<lparr>invs := x\<rparr>)"
  by (erule consistent_frame) (simp_all add: completions_def)

lemma completions_out_Keys [simp]:
  "completions c (s\<lparr>out := out s @ [Keys k]\<rparr>) = completions c s"
  "completions c (s\<lparr>out := out s @ [Publish k m]\<rparr>) = completions c s"
  by (simp_all add: completions_def)

lemma completions_put [simp]:
  "completions c (put_server name l s) = completions c s"
  "completions c (put_message mid c' s) = completions c s"
  "completions c (put_timestamp name t s) = completions c s"
  by (simp_all add: completions_def)

lemma consistent_call: "consistent s \<Longrightarrow> consistent (call name args callback e s)"
  unfolding consistent_def call_explicit Let_def
  by (cases "get_server s name")
    (auto simp: completions_def nth_append less_Suc_eq put_message_def put_server_def
      split: if_splits)

lemma consistent_bound_call: "consistent s \<Longrightarrow> consistent (bound_call i args e s)"
  by (simp add: bound_call.simps consistent_call)

lemma consistent_start: "consistent s \<Longrightarrow> consistent (start i e s)"
  by (simp add: start.simps consistent_applyFn consistent_bound_call split: onretry.splits)

lemma consistent_tryAgain: "consistent s \<Longrightarrow> consistent (tryAgain i e s)"
  by (simp add: tryAgain.simps consistent_start consistent_upd_inv)

lemma consistent_onCallback: "consistent s \<Longrightarrow> consistent (onCallback i a e s)"
  by (simp add: onCallback.simps Let_def consistent_tryAgain consistent_setTimeout
      consistent_applyFn)

text \<open>The first half of \<open>cb\<close>: the latch closes, the timeout is cleared, the callback is
  about to be applied.\<close>

lemma consistent_latch:
  assumes "consistent s" and "c < length (calls s)" and "\<not> cc_hasCallback (calls s ! c)"
  shows "consistent (emit (Completed c a)
           (clearTimeout (cc_tid (calls s ! c))
             (upd_call c (\<lambda>x. x\<lparr>cc_hasCallback := True\<rparr>) s)))"
proof -
  let ?s' = "emit (Completed c a)
           (clearTimeout (cc_tid (calls s ! c))
             (upd_call c (\<lambda>x. x\<lparr>cc_hasCallback := True\<rparr>) s))"
  have comp: "completions c' ?s' = completions c' s + (if c' = c then 1 else 0)" for c'
    by (simp add: completions_def emit_def clearTimeout_def upd_call_def split: option.splits)
  have calls': "calls ?s' = (calls s)[c := (calls s ! c)\<lparr>cc_hasCallback := True\<rparr>]"
    by (simp add: emit_def clearTimeout_def upd_call_def split: option.splits)
  have timers': "timers ?s' tid = (if cc_tid (calls s ! c) = Some tid then None else timers s tid)"
    for tid
    by (simp add: emit_def clearTimeout_def upd_call_def split: option.splits)
  have rest: "nextTimer ?s' = nextTimer s" "messages ?s' = messages s" "scans ?s' = scans s"
    "clearServerListTid ?s' = clearServerListTid s" "messages_proto ?s' = messages_proto s"
    by (simp_all add: emit_def clearTimeout_def upd_call_def split: option.splits)
  have open_c: "completions c s = 0"
    using assms by (simp add: consistent_def)
  have t: "c' < length (calls s) \<and> \<not> cc_hasCallback (calls s ! c') \<and> cc_tid (calls s ! c') = Some tid"
    if "timers s tid = Some (CheckTimeout c', d)" for tid c' d
    using assms(1) that by (rule consistent_timerD)
  have h1: "\<forall>c'. completions c' ?s' \<le> 1"
    using assms(1) open_c by (simp add: comp consistent_def)
  have h2: "\<forall>c'. c' < length (calls ?s') \<longrightarrow> \<not> cc_hasCallback (calls ?s' ! c') \<longrightarrow>
      completions c' ?s' = 0"
    using assms(1) by (auto simp: comp calls' consistent_def nth_list_update split: if_splits)
  have h3: "\<forall>c'. length (calls ?s') \<le> c' \<longrightarrow> completions c' ?s' = 0"
    using assms(1,2) by (auto simp: comp calls' consistent_def)
  have h4: "\<forall>tid c' d. timers ?s' tid = Some (CheckTimeout c', d) \<longrightarrow>
      c' < length (calls ?s') \<and> \<not> cc_hasCallback (calls ?s' ! c')
      \<and> cc_tid (calls ?s' ! c') = Some tid"
  proof (intro allI impI)
    fix tid c' d assume "timers ?s' tid = Some (CheckTimeout c', d)"
    then have a: "timers s tid = Some (CheckTimeout c', d)" "cc_tid (calls s ! c) \<noteq> Some tid"
      by (auto simp: timers' split: if_splits)
    from t [OF a(1)] a(2) have "c' \<noteq> c" by auto
    with t [OF a(1)]
    show "c' < length (calls ?s') \<and> \<not> cc_hasCallback (calls ?s' ! c')
          \<and> cc_tid (calls ?s' ! c') = Some tid"
      by (simp add: calls')
  qed
  have h5: "\<forall>tid. timers ?s' tid \<noteq> None \<longrightarrow> tid < nextTimer ?s'"
    using assms(1) by (auto simp: timers' rest consistent_def split: if_splits)
  have h6: "\<forall>mid c'. messages ?s' mid = Some c' \<longrightarrow> c' < length (calls ?s')"
    using assms(1) by (auto simp: rest calls' dest: consistent_messageD)
  have h7: "\<forall>rid name c'. scans ?s' rid = Some (name, c') \<longrightarrow> c' < length (calls ?s')"
    using assms(1) by (auto simp: rest calls' dest: consistent_scanD)
  have h8: "clearServerListTid ?s' < nextTimer ?s'"
    using assms(1) by (simp add: rest consistent_def)
  have h9: "\<forall>c' d. timers ?s' (clearServerListTid ?s') \<noteq> Some (CheckTimeout c', d)"
    using assms(1) by (auto simp: rest timers' consistent_def)
  have h10: "\<forall>c'. messages_proto ?s' = Some c' \<longrightarrow> c' < length (calls ?s')"
    using assms(1) by (auto simp: rest calls' dest: consistent_protoD)
  from h1 h2 h3 h4 h5 h6 h7 h8 h9 h10 show ?thesis
    unfolding consistent_def by blast
qed

lemma consistent_cb:
  assumes "consistent s" and "c < length (calls s)"
  shows "consistent (cb c a e s)"
proof (cases "cc_hasCallback (calls s ! c)")
  case True
  with assms show ?thesis by (simp add: cb.simps)
next
  case False
  let ?s1 = "upd_call c (\<lambda>x. x\<lparr>cc_hasCallback := True\<rparr>) s"
  have tid: "cc_tid (calls ?s1 ! c) = cc_tid (calls s ! c)"
    using assms(2) by (simp add: upd_call_def)
  have "consistent (emit (Completed c a) (clearTimeout (cc_tid (calls s ! c)) ?s1))"
    using assms False by (rule consistent_latch)
  with False show ?thesis
    by (simp add: cb.simps Let_def tid consistent_applyFn consistent_onCallback
        split: callback.splits)
qed

lemma consistent_found:
  assumes "consistent s" and "c < length (calls s)"
  shows "consistent (found c err ret e s)"
proof (cases "truthy err")
  case True
  with assms show ?thesis by (simp add: found.simps consistent_cb)
next
  case False
  let ?s' = "found c err ret e s"
  have f: "calls ?s' = (calls s)[c := (calls s ! c)\<lparr>cc_serverId := ret\<rparr>]"
    "completions c' ?s' = completions c' s" "timers ?s' = timers s"
    "nextTimer ?s' = nextTimer s" "scans ?s' = scans s"
    "clearServerListTid ?s' = clearServerListTid s" for c'
    using False
    by (simp_all add: found.simps Let_def sendCallRequest_def emit_def upd_call_def
        completions_def)
  have m: "messages ?s' mid = Some c' \<Longrightarrow> c' = c \<or> messages s mid = Some c'"
    "messages_proto ?s' = Some c' \<Longrightarrow> c' = c \<or> messages_proto s = Some c'" for mid c'
    using False
    by (auto simp: found.simps Let_def sendCallRequest_def emit_def upd_call_def
        put_message_def split: if_splits)
  have t: "c' < length (calls s) \<and> \<not> cc_hasCallback (calls s ! c') \<and> cc_tid (calls s ! c') = Some tid"
    if "timers s tid = Some (CheckTimeout c', d)" for tid c' d
    using assms(1) that by (rule consistent_timerD)
  have h1: "\<forall>c'. completions c' ?s' \<le> 1"
    using assms(1) by (simp add: f consistent_def)
  have h2: "\<forall>c'. c' < length (calls ?s') \<longrightarrow> \<not> cc_hasCallback (calls ?s' ! c') \<longrightarrow>
      completions c' ?s' = 0"
    using assms by (auto simp: f consistent_def nth_list_update split: if_splits)
  have h3: "\<forall>c'. length (calls ?s') \<le> c' \<longrightarrow> completions c' ?s' = 0"
    using assms(1) by (auto simp: f consistent_def)
  have h4: "\<forall>tid c' d. timers ?s' tid = Some (CheckTimeout c', d) \<longrightarrow>
      c' < length (calls ?s') \<and> \<not> cc_hasCallback (calls ?s' ! c')
      \<and> cc_tid (calls ?s' ! c') = Some tid"
  proof (intro allI impI)
    fix tid c' d assume "timers ?s' tid = Some (CheckTimeout c', d)"
    then have "timers s tid = Some (CheckTimeout c', d)" by (simp add: f)
    from t [OF this] assms(2)
    show "c' < length (calls ?s') \<and> \<not> cc_hasCallback (calls ?s' ! c')
          \<and> cc_tid (calls ?s' ! c') = Some tid"
      by (auto simp: f nth_list_update)
  qed
  have h5: "\<forall>tid. timers ?s' tid \<noteq> None \<longrightarrow> tid < nextTimer ?s'"
    using assms(1) by (auto simp: f consistent_def)
  have h6: "\<forall>mid c'. messages ?s' mid = Some c' \<longrightarrow> c' < length (calls ?s')"
    using assms by (auto simp: f dest: consistent_messageD dest!: m(1))
  have h10: "\<forall>c'. messages_proto ?s' = Some c' \<longrightarrow> c' < length (calls ?s')"
    using assms by (auto simp: f dest: consistent_protoD dest!: m(2))
  have h7: "\<forall>rid name c'. scans ?s' rid = Some (name, c') \<longrightarrow> c' < length (calls ?s')"
    using assms by (auto simp: f dest: consistent_scanD)
  have h8: "clearServerListTid ?s' < nextTimer ?s'"
    using assms(1) by (simp add: f consistent_def)
  have h9: "\<forall>c' d. timers ?s' (clearServerListTid ?s') \<noteq> Some (CheckTimeout c', d)"
    using assms(1) by (auto simp: f consistent_def)
  from h1 h2 h3 h4 h5 h6 h7 h8 h9 h10 show ?thesis
    unfolding consistent_def by blast
qed

lemma consistent_returnOneServer:
  "consistent s \<Longrightarrow> c < length (calls s) \<Longrightarrow> consistent (returnOneServer name c e s)"
  by (simp add: returnOneServer.simps consistent_found consistent_emit)

lemma calls_saveServerList [simp]: "calls (saveServerList name l now s) = calls s"
  by (simp add: saveServerList_def)

lemma consistent_keysReply:
  "consistent s \<Longrightarrow> c < length (calls s) \<Longrightarrow> consistent (keysReply name c err list e s)"
  by (simp add: keysReply_def Let_def consistent_found consistent_returnOneServer
      consistent_saveServerList)

lemma calls_removeServer:
  "removeServer sid name s = Inr s' \<Longrightarrow> calls s' = calls s"
  by (auto simp: removeServer_def emit_def Let_def split: if_splits looked.splits)

lemma calls_removeMessageHandler [simp]: "calls (removeMessageHandler mid s) = calls s"
  by (simp add: removeMessageHandler_def)

lemma consistent_checkTimeout:
  assumes "consistent s" and "c < length (calls s)"
  shows "consistent (checkTimeout c e s)"
proof -
  let ?s1 = "removeMessageHandler (m_id (cc_msg (calls s ! c))) s"
  have s1: "consistent ?s1"
    using assms(1) by (rule consistent_removeMessageHandler)
  show ?thesis
  proof (cases "removeServer (cc_serverId (calls ?s1 ! c)) (cc_name (calls ?s1 ! c)) ?s1")
    case (Inl err)
    with s1 show ?thesis by (simp add: checkTimeout_def Let_def consistent_emit)
  next
    case (Inr s2)
    from s1 Inr have "consistent s2" by (rule consistent_removeServer)
    moreover from Inr have "calls s2 = calls s" by (simp add: calls_removeServer)
    ultimately show ?thesis
      using Inr assms(2) by (simp add: checkTimeout_def Let_def consistent_cb)
  qed
qed

lemma consistent_on_message: "consistent s \<Longrightarrow> consistent (on_message channel msg e s)"
proof -
  assume s: "consistent s"
  have "consistent (handleCallResult msg e s)"
  proof (cases "get_message s (m_id msg)")
    case (LHandler c)
    with s have "c < length (calls s)" by (auto dest: consistent_handlerD)
    with s LHandler show ?thesis
      by (simp add: handleCallResult_def consistent_cb consistent_removeMessageHandler)
  next
    case (LFunction n)
    with s show ?thesis
      by (simp add: handleCallResult_def consistent_applyInherited
          consistent_removeMessageHandler)
  qed (simp_all add: handleCallResult_def s)
  with s show ?thesis by (simp add: on_message_def handleMessage_def)
qed

lemma consistent_fires: "consistent s \<Longrightarrow> consistent (fires tid e s)"
proof -
  assume s: "consistent s"
  show ?thesis
  proof (cases "timers s tid")
    case None
    with s show ?thesis by (simp add: fires_def)
  next
    case (Some p)
    obtain f d where p: "p = (f, d)" by (cases p)
    show ?thesis
    proof (cases f)
      case (CheckTimeout c)
      with s Some p have "c < length (calls s)" by (auto dest: consistent_timerD)
      with s Some p CheckTimeout show ?thesis
        by (simp add: fires_def consistent_checkTimeout consistent_remove_timer)
    next
      case (TryAgain i)
      with s Some p show ?thesis
        by (simp add: fires_def consistent_tryAgain consistent_remove_timer)
    next
      case ClearServerList
      with s Some p show ?thesis
        by (simp add: fires_def consistent_clearServerList consistent_due)
    qed
  qed
qed

lemma consistent_bound:
  "consistent s \<Longrightarrow> bound b arguments e s = Inr s1 \<Longrightarrow> consistent s1"
proof -
  assume s: "consistent s" and b: "bound b arguments e s = Inr s1"
  from b s show ?thesis
    by (auto simp: bound_def Let_def consistent_start consistent_upd_bind consistent_invs_update
        split: if_splits onretry.splits)
qed

lemma consistent_step: "consistent s \<Longrightarrow> consistent (step e ev s)"
proof (cases ev)
  case (EKeys rid err list)
  assume s: "consistent s"
  show ?thesis
  proof (cases "scans s rid")
    case None
    with s EKeys show ?thesis by (simp add: step_def)
  next
    case (Some p)
    obtain name c where p: "p = (name, c)" by (cases p)
    with s Some have "c < length (calls s)" by (auto dest: consistent_scanD)
    with s Some p EKeys show ?thesis
      by (simp add: step_def consistent_keysReply consistent_remove_scan)
  qed
next
  case (EBound b arguments)
  assume s: "consistent s"
  with EBound show ?thesis
    by (auto simp: step_def dest: consistent_bound split: sum.splits)
qed (simp_all add: step_def consistent_call consistent_bind consistent_bound_call
      consistent_fires consistent_on_message consistent_exit)

lemma consistent_run: "consistent s \<Longrightarrow> consistent (run evs s)"
  by (induction evs arbitrary: s) (auto simp: consistent_step)

lemma consistent_reachable: "consistent (run evs (CloudsClient options uid))"
  by (rule consistent_run) (rule consistent_CloudsClient)

lemma example_completed_fields:
  "cc_hasCallback (calls example_completed ! 0)"
  "out example_completed =
     [Subscribe ''clouds:L:c1'', Keys ''clouds:S:svc:*'',
      Publish ''clouds:L:srv1'' (pocketCallMessage ''c1'' ''svc'' [VNum 1] (turn ''m1'' 0)),
      Completed 0 [VNull, VNum 42], Apply (VFun 7) [VNull, VNum 42]]"
  by (simp_all add: example_completed_def example_result_def client_defs call_explicit
      returnOneServer.simps found.simps cb.simps Let_def)

lemma example_called_fields:
  "servers example_called ''svc'' = Some []"
  "serversTimestamp example_called ''svc'' = None"
  "scans example_called 0 = Some (''svc'', 0)"
  "timers example_called 1 = Some (CheckTimeout 0, 60000)"
  "length (calls example_called) = 1"
  "\<not> cc_hasCallback (calls example_called ! 0)"
  "cc_tid (calls example_called ! 0) = Some 1"
  "cc_callback (calls example_called ! 0) = Given (VFun 7)"
  "c_prefix example_called = ''clouds''"
  "nextScan example_called = 1"
  "out example_called = [Subscribe ''clouds:L:c1'', Keys ''clouds:S:svc:*'']"
  by (simp_all add: example_called_def client_defs call_explicit Let_def)

lemma calls_emit [simp]: "calls (emit x s) = calls s"
  by (simp add: emit_def)

lemma calls_clearTimeout [simp]: "calls (clearTimeout t s) = calls s"
  by (simp add: clearTimeout_def split: option.splits)

lemma onCallback_no_server:
  "onCallback i [no_server_error] e s =
     (if i_retryCounter (invs s ! i) < b_retry (binds s ! i_bind (invs s ! i))
      then setTimeout (TryAgain i) (b_timeout (binds s ! i_bind (invs s ! i))) (e_now e) s
      else applyFn (i_callback (invs s ! i)) [no_server_error] s)"
  by (simp add: onCallback.simps no_server_error_def Let_def)

lemma after_refl: "after s s"
  by (simp add: after_def)

lemma after_trans: "after s s1 \<Longrightarrow> after s1 s2 \<Longrightarrow> after s s2"
proof -
  assume a: "after s s1" and b: "after s1 s2"
  from a obtain ys where ys: "out s1 = out s @ ys"
    "\<forall>y\<in>set ys. \<not> is_del y \<and> (\<forall>c. \<not> is_completed c y)"
    unfolding after_def by blast
  from b obtain zs where zs: "out s2 = out s1 @ zs"
    "\<forall>y\<in>set zs. \<not> is_del y \<and> (\<forall>c. \<not> is_completed c y)"
    unfolding after_def by blast
  have "\<exists>ws. out s2 = out s @ ws
      \<and> (\<forall>y\<in>set ws. \<not> is_del y \<and> (\<forall>c. \<not> is_completed c y))"
  proof (intro exI conjI)
    show "out s2 = out s @ (ys @ zs)" using ys zs by simp
    show "\<forall>y\<in>set (ys @ zs). \<not> is_del y \<and> (\<forall>c. \<not> is_completed c y)"
      using ys(2) zs(2) by auto
  qed
  then show ?thesis unfolding after_def .
qed

lemma after_applyFn: "after s (applyFn f a s)"
  by (simp add: after_def applyFn_def emit_def)

lemma after_upd_inv: "after s (upd_inv i f s)"
  by (simp add: after_def upd_inv_def)

lemma after_setTimeout: "after s (setTimeout f d now s)"
  by (simp add: after_def setTimeout_def)

lemma after_call: "after s (call name args callback e s)"
  by (cases "get_server s name")
    (simp_all add: after_def call_explicit Let_def)

lemma after_bound_call: "after s (bound_call i args e s)"
  by (simp add: bound_call.simps after_call)

lemma after_start: "after s (start i e s)"
  by (simp add: start.simps after_applyFn after_bound_call split: onretry.splits)

lemma after_tryAgain: "after s (tryAgain i e s)"
  using after_trans [OF after_upd_inv after_start] by (simp add: tryAgain.simps)

lemma after_onCallback: "after s (onCallback i a e s)"
  by (simp add: onCallback.simps Let_def after_tryAgain after_setTimeout after_applyFn)

lemma after_completions: "after s s' \<Longrightarrow> completions c s' = completions c s"
proof -
  assume "after s s'"
  then obtain ys where "out s' = out s @ ys"
    "\<forall>y\<in>set ys. \<not> is_del y \<and> (\<forall>c. \<not> is_completed c y)"
    unfolding after_def by blast
  then show ?thesis by (simp add: completions_def filter_empty_conv)
qed

lemma after_out: "after s s' \<Longrightarrow> x \<in> set (out s) \<Longrightarrow> x \<in> set (out s')"
proof -
  assume "after s s'" and x: "x \<in> set (out s)"
  then obtain ys where "out s' = out s @ ys"
    unfolding after_def by blast
  with x show ?thesis by simp
qed

text \<open>\<open>cb\<close> with an open latch: the latch closes, the timeout is cleared, the completion
  is recorded, and the callback follows.\<close>

lemma cb_open:
  assumes "c < length (calls s)" and "\<not> cc_hasCallback (calls s ! c)"
  shows "after (emit (Completed c a)
                   (clearTimeout (cc_tid (calls s ! c))
                     (upd_call c (\<lambda>x. x\<lparr>cc_hasCallback := True\<rparr>) s)))
           (cb c a e s)"
  using assms
  by (cases "cc_callback (calls s ! c)")
    (simp_all add: cb.simps Let_def upd_call_def after_applyFn after_onCallback)

lemma example_dispatched_call:
  "timers example_dispatched (Suc 0) = Some (CheckTimeout 0, 60000)"
  "cc_serverId (calls example_dispatched ! 0) = Some ''srv1''"
  "cc_name (calls example_dispatched ! 0) = ''svc''"
  "m_id (cc_msg (calls example_dispatched ! 0)) = ''m1''"
  "\<not> c_notAutoCleanRemoteServer example_dispatched"
  "c_prefix example_dispatched = ''clouds''"
  "clearServerListTid example_dispatched = 0"
  by (simp_all add: example_dispatched_def client_defs call_explicit returnOneServer.simps
      found.simps Let_def)

lemma removeServer_Inr:
  assumes "(\<exists>xs. get_server s name = LArray xs) \<or> \<not> has_positive_length (get_server s name)"
  shows "\<exists>s2. removeServer sid name s = Inr s2
    \<and> out s2 = out s @ (if c_notAutoCleanRemoteServer s then []
                        else [Del (key s [''S'', name, seg sid])])
    \<and> calls s2 = calls s \<and> timers s2 = timers s"
  using assms
  by (cases "get_server s name")
    (auto simp: removeServer_def Let_def emit_def key_def put_server_def)

text \<open>The turn of the timeout of a call, when \<open>_removeServer\<close> does not throw.\<close>

lemma timeout_turn:
  assumes cons: "consistent s"
    and t: "timers s tid = Some (CheckTimeout c, d)"
    and now: "due s tid \<le> e_now e"
    and ok: "(\<exists>xs. get_server s (cc_name (calls s ! c)) = LArray xs)
      \<or> \<not> has_positive_length (get_server s (cc_name (calls s ! c)))"
  shows "\<exists>s3. after s3 (step e (ETimer tid) s)
    \<and> (\<forall>f. cc_callback (calls s ! c) = Given f \<longrightarrow>
          step e (ETimer tid) s = applyFn f [timeout_error] s3)
    \<and> out s3 = out s @ (if c_notAutoCleanRemoteServer s then []
                        else [Del (key s [''S'', cc_name (calls s ! c),
                                          seg (cc_serverId (calls s ! c))])])
                     @ [Completed c [timeout_error]]
    \<and> completions c s = 0"
proof -
  let ?mid = "m_id (cc_msg (calls s ! c))"
  let ?N = "cc_name (calls s ! c)"
  let ?sid = "cc_serverId (calls s ! c)"
  let ?s' = "step e (ETimer tid) s"
  let ?s1 = "removeMessageHandler ?mid (s\<lparr>timers := (timers s)(tid := None)\<rparr>)"
  from consistent_timerD [OF cons t]
  have c: "c < length (calls s)" and op: "\<not> cc_hasCallback (calls s ! c)"
    by simp_all
  have zero: "completions c s = 0"
    using cons c op by (simp add: consistent_def)
  have g1: "get_server ?s1 = get_server s"
    by (rule get_server_cong) (simp_all add: removeMessageHandler_def)
  have f1: "out ?s1 = out s" "calls ?s1 = calls s"
    "c_notAutoCleanRemoteServer ?s1 = c_notAutoCleanRemoteServer s"
    "key ?s1 = key s"
    by (simp_all add: removeMessageHandler_def key_def fun_eq_iff)
  from removeServer_Inr [of ?s1 ?N ?sid] ok
  obtain s2 where s2: "removeServer ?sid ?N ?s1 = Inr s2"
    and dels2: "out s2 = out s @ (if c_notAutoCleanRemoteServer s then []
      else [Del (key s [''S'', ?N, seg ?sid])])"
    and calls2: "calls s2 = calls s"
    unfolding g1 f1 by blast
  define s3 where "s3 = emit (Completed c [timeout_error])
      (clearTimeout (cc_tid (calls s2 ! c)) (upd_call c (\<lambda>x. x\<lparr>cc_hasCallback := True\<rparr>) s2))"
  have step: "?s' = cb c [timeout_error] e s2"
    using t now s2 by (simp add: step_ETimer fires_def checkTimeout_def Let_def f1)
  have aft: "after s3 ?s'"
    unfolding step s3_def using c op by (intro cb_open) (simp_all add: calls2)
  have given: "\<forall>f. cc_callback (calls s ! c) = Given f \<longrightarrow> ?s' = applyFn f [timeout_error] s3"
    using c op by (simp add: step cb.simps Let_def s3_def calls2 upd_call_def)
  have out3: "out s3 = out s @ (if c_notAutoCleanRemoteServer s then []
      else [Del (key s [''S'', ?N, seg ?sid])]) @ [Completed c [timeout_error]]"
    by (simp add: s3_def emit_def clearTimeout_def upd_call_def dels2 split: option.splits)
  from aft given out3 zero show ?thesis by blast
qed

lemma fires_ClearServerList:
  "timers s tid = Some (ClearServerList, d) \<Longrightarrow>
     fires tid e s =
       (if e_now e < due s tid then s
        else clearServerList (e_now e) (s\<lparr>due := (due s)(tid := e_now e + d)\<rparr>))"
  by (simp add: fires_def)

lemma servers_clearServerList:
  "servers (clearServerList now s) name =
     (if servers s name \<noteq> None
         \<and> (\<exists>ts. serversTimestamp s name = Some ts \<and> ts \<le> now - c_serverMaxAge s * 1000)
      then None else servers s name)"
  by (cases "serversTimestamp s name") (simp_all add: clearServerList_def Let_def)

lemma serversTimestamp_clearServerList:
  "serversTimestamp (clearServerList now s) name =
     (if servers s name \<noteq> None
         \<and> (\<exists>ts. serversTimestamp s name = Some ts \<and> ts \<le> now - c_serverMaxAge s * 1000)
      then None else serversTimestamp s name)"
  by (cases "serversTimestamp s name") (simp_all add: clearServerList_def Let_def)

lemma clearServerList_fields [simp]:
  "timers (clearServerList now s) = timers s"
  "due (clearServerList now s) = due s"
  "clearServerListTid (clearServerList now s) = clearServerListTid s"
  "c_serverMaxAge (clearServerList now s) = c_serverMaxAge s"
  "servers_proto (clearServerList now s) = servers_proto s"
  "out (clearServerList now s) = out s"
  by (simp_all add: clearServerList_def Let_def)

lemma tick_explicit:
  "timers s (clearServerListTid s) = Some (ClearServerList, d) \<Longrightarrow>
     tick s = clearServerList (due s (clearServerListTid s))
                (s\<lparr>due := (due s)(clearServerListTid s := due s (clearServerListTid s) + d)\<rparr>)"
  by (simp add: tick_def step_ETimer fires_ClearServerList)

text \<open>What a tick on time does to the timer and to one entry.\<close>

lemma tick_entry:
  assumes "timers s (clearServerListTid s) = Some (ClearServerList, d)"
  shows "timers (tick s) = timers s"
    and "clearServerListTid (tick s) = clearServerListTid s"
    and "c_serverMaxAge (tick s) = c_serverMaxAge s"
    and "due (tick s) (clearServerListTid s) = due s (clearServerListTid s) + d"
    and "servers (tick s) name =
      (if servers s name \<noteq> None
          \<and> (\<exists>ts. serversTimestamp s name = Some ts
                   \<and> ts \<le> due s (clearServerListTid s) - c_serverMaxAge s * 1000)
       then None else servers s name)"
    and "serversTimestamp (tick s) name =
      (if servers s name \<noteq> None
          \<and> (\<exists>ts. serversTimestamp s name = Some ts
                   \<and> ts \<le> due s (clearServerListTid s) - c_serverMaxAge s * 1000)
       then None else serversTimestamp s name)"
  by (auto simp: tick_explicit [OF assms] servers_clearServerList
      serversTimestamp_clearServerList)

lemma three_ticks:
  assumes t: "timers s (clearServerListTid s) = Some (ClearServerList, 1000)"
    and age: "c_serverMaxAge s = 2"
    and ts: "serversTimestamp s name = Some 0"
    and lo: "0 \<le> due s (clearServerListTid s)"
    and hi: "due s (clearServerListTid s) \<le> 1000"
  shows "servers (tick (tick (tick s))) name = None"
    and "due (tick s) (clearServerListTid s) = due s (clearServerListTid s) + 1000"
    and "due (tick (tick s)) (clearServerListTid s) = due s (clearServerListTid s) + 2000"
proof -
  let ?tid = "clearServerListTid s"
  let ?s1 = "tick s"
  let ?s2 = "tick ?s1"
  have t1: "timers ?s1 (clearServerListTid ?s1) = Some (ClearServerList, 1000)"
    using t by (simp add: tick_entry [OF t])
  have t2: "timers ?s2 (clearServerListTid ?s2) = Some (ClearServerList, 1000)"
    using t1 by (simp add: tick_entry [OF t1])
  have id1: "clearServerListTid ?s1 = ?tid" by (simp add: tick_entry [OF t])
  have id2: "clearServerListTid ?s2 = ?tid" by (simp add: tick_entry [OF t1] id1)
  have a1: "c_serverMaxAge ?s1 = 2" by (simp add: tick_entry [OF t] age)
  have a2: "c_serverMaxAge ?s2 = 2" by (simp add: tick_entry [OF t1] a1)
  show d1: "due ?s1 ?tid = due s ?tid + 1000" by (simp add: tick_entry [OF t])
  show d2: "due ?s2 ?tid = due s ?tid + 2000"
    using tick_entry(4) [OF t1] by (simp add: id1 d1)
  have ts1: "serversTimestamp ?s1 name = Some 0 \<or> servers ?s1 name = None"
    by (simp add: tick_entry [OF t] ts)
  have ts2: "serversTimestamp ?s2 name = Some 0 \<or> servers ?s2 name = None"
    using ts1 by (auto simp: tick_entry [OF t1])
  show "servers (tick ?s2) name = None"
    using ts2 lo by (auto simp: tick_entry [OF t2] id2 a2 d2)
qed

lemma example_inherited_name_fields:
  "get_server example_inherited_name ''constructor'' = LFunction 1"
  "servers example_inherited_name ''constructor'' = None"
  "timers example_inherited_name 2 = Some (CheckTimeout 1, 60000)"
  "due example_inherited_name 2 = 110000"
  "cc_name (calls example_inherited_name ! 1) = ''constructor''"
  "cc_serverId (calls example_inherited_name ! 1) = Some ''srv1''"
  "cc_callback (calls example_inherited_name ! 1) = Given (VFun 8)"
  "\<not> cc_hasCallback (calls example_inherited_name ! 1)"
  "m_id (cc_msg (calls example_inherited_name ! 1)) = ''m2''"
  "messages example_inherited_name ''m2'' = Some 1"
  "\<not> c_notAutoCleanRemoteServer example_inherited_name"
  "out example_inherited_name =
     [Subscribe ''clouds:L:c1'', Keys ''clouds:S:constructor:*'',
      Publish ''clouds:L:srv1''
        (pocketCallMessage ''c1'' ''constructor'' [VNum 1] (turn ''m1'' 0)),
      Completed 0 [VNull, VNum 42], Apply (VFun 7) [VNull, VNum 42],
      Publish ''clouds:L:srv1''
        (pocketCallMessage ''c1'' ''constructor'' [VNum 2] (turn ''m2'' 50000))]"
  by (simp_all add: example_inherited_name_def default_options_def example_result_def
      client_defs call_explicit closure_simps Let_def del: One_nat_def)

lemma clearServerList_idle:
  "(\<forall>name ts. serversTimestamp s name = Some ts \<longrightarrow>
      \<not> ts \<le> now - c_serverMaxAge s * 1000) \<Longrightarrow>
   clearServerList now s = s"
  by (simp add: clearServerList_def Let_def fun_eq_iff split: option.splits)

lemma fires_sweep_idle:
  "timers s tid = Some (ClearServerList, d) \<Longrightarrow> due s tid \<le> e_now e \<Longrightarrow>
   (\<forall>name ts. serversTimestamp s name = Some ts \<longrightarrow>
      \<not> ts \<le> e_now e - c_serverMaxAge s * 1000) \<Longrightarrow>
   fires tid e s = s\<lparr>due := (due s)(tid := e_now e + d)\<rparr>"
  by (simp add: fires_def clearServerList_idle)

lemma fires_timeout:
  "timers s tid = Some (CheckTimeout c, d) \<Longrightarrow> due s tid \<le> e_now e \<Longrightarrow>
     fires tid e s = checkTimeout c e (s\<lparr>timers := (timers s)(tid := None)\<rparr>)"
  by (simp add: fires_def)

lemma step_simps:
  "step e (ECall name args callback) s = call name args (Given callback) e s"
  "step e (EBind name retry onRetry) s = bind name retry onRetry s"
  "step e (EBound b arguments) s =
     (if b < length (binds s)
      then (case bound b arguments e s of Inl msg \<Rightarrow> s | Inr s1 \<Rightarrow> s1) else s)"
  "step e (EKeys rid err list) s =
     (case scans s rid of
        None \<Rightarrow> s
      | Some (name, c) \<Rightarrow> keysReply name c err list e (s\<lparr>scans := (scans s)(rid := None)\<rparr>))"
  "step e (EMessage channel msg) s = on_message channel msg e s"
  "step e (EExit callback) s = exit callback s"
  by (simp_all add: step_def)

lemmas run_defs =
  CloudsClient_def listen_def autoClearServerList_def setTimeout_def clearTimeout_def
  emit_def key_def seg_def nth_opt_def upd_call_def upd_inv_def upd_bind_def
  pocketCallMessage_def timeout_error_def no_server_error_def removeMessageHandler_def
  saveServerList_def removeServer_def sendCallRequest_def applyFn_def
  keysReply_def checkTimeout_def handleCallResult_def handleMessage_def on_message_def
  define_timeout_def define_serverMaxAge_def define_redisPrefix_def bind_def bound_def
  exit_def example_options_def default_options_def turn_def completions_def
  get_server_def put_server_def put_timestamp_def get_message_def put_message_def
  object_prototype_def has_positive_length_def length_below_1_def applyInherited_def
  step_simps step_ETimer fires_sweep_idle fires_timeout

lemma example_invoked_once_state:
  "example_invoked_once =
     \<lparr>c_id = ''c1'', c_timeout = 60, c_prefix = ''clouds'', c_serverMaxAge = 60,
      c_notAutoCleanRemoteServer = False,
      messages = Map.empty, messages_proto = None,
      servers = [''svc'' \<mapsto> []], servers_proto = None,
      serversTimestamp = [''svc'' \<mapsto> 120002],
      clearServerListTid = 0, listenKey = ''clouds:L:c1'',
      calls =
        [\<lparr>cc_name = ''svc'', cc_args = [VNum 1], cc_callback = OnCallback 0,
          cc_msg = pocketCallMessage ''c1'' ''svc'' [VNum 1] (turn ''m1'' 1),
          cc_serverId = Some ''srv1'', cc_hasCallback = True, cc_tid = Some 1\<rparr>,
         \<lparr>cc_name = ''svc'', cc_args = [VNum 1], cc_callback = OnCallback 0,
          cc_msg = pocketCallMessage ''c1'' ''svc'' [VNum 1] (turn ''m2'' 60001),
          cc_serverId = Some ''srv1'', cc_hasCallback = True, cc_tid = Some 2\<rparr>,
         \<lparr>cc_name = ''svc'', cc_args = [VNum 1], cc_callback = OnCallback 0,
          cc_msg = pocketCallMessage ''c1'' ''svc'' [VNum 1] (turn ''m3'' 120001),
          cc_serverId = Some ''srv1'', cc_hasCallback = True, cc_tid = Some 3\<rparr>],
      binds = [\<lparr>b_name = ''svc'', b_retry = 2, b_timeout = 60000, b_onRetry = Default 0\<rparr>],
      invs = [\<lparr>i_bind = 0, i_args = [VNum 1], i_callback = VFun 7, i_retryCounter = 2\<rparr>],
      timers = [0 \<mapsto> (ClearServerList, 30000)],
      due = (\<lambda>tid. 0)(0 := 210000, 1 := 60001, 2 := 120001, 3 := 180001),
      nextTimer = 4, scans = Map.empty, nextScan = 3,
      out =
        [Subscribe ''clouds:L:c1'',
         Keys ''clouds:S:svc:*'',
         Publish ''clouds:L:srv1'' (pocketCallMessage ''c1'' ''svc'' [VNum 1] (turn ''m1'' 1)),
         Del ''clouds:S:svc:srv1'', Completed 0 [timeout_error],
         Keys ''clouds:S:svc:*'',
         Publish ''clouds:L:srv1'' (pocketCallMessage ''c1'' ''svc'' [VNum 1] (turn ''m2'' 60001)),
         Del ''clouds:S:svc:srv1'', Completed 1 [timeout_error],
         Keys ''clouds:S:svc:*'',
         Publish ''clouds:L:srv1'' (pocketCallMessage ''c1'' ''svc'' [VNum 1] (turn ''m3'' 120001)),
         Del ''clouds:S:svc:srv1'', Completed 2 [timeout_error],
         Apply (VFun 7) [timeout_error]]\<rparr>"
  by (simp add: example_invoked_once_def example_first_invocation_def
      run_defs call_explicit closure_simps Let_def fun_eq_iff)

lemma example_invoked_twice_state:
  "example_invoked_twice =
     \<lparr>c_id = ''c1'', c_timeout = 60, c_prefix = ''clouds'', c_serverMaxAge = 60,
      c_notAutoCleanRemoteServer = False,
      messages = Map.empty, messages_proto = None,
      servers = [''svc'' \<mapsto> []], servers_proto = None,
      serversTimestamp = [''svc'' \<mapsto> 180003],
      clearServerListTid = 0, listenKey = ''clouds:L:c1'',
      calls =
        [\<lparr>cc_name = ''svc'', cc_args = [VNum 1], cc_callback = OnCallback 0,
          cc_msg = pocketCallMessage ''c1'' ''svc'' [VNum 1] (turn ''m1'' 1),
          cc_serverId = Some ''srv1'', cc_hasCallback = True, cc_tid = Some 1\<rparr>,
         \<lparr>cc_name = ''svc'', cc_args = [VNum 1], cc_callback = OnCallback 0,
          cc_msg = pocketCallMessage ''c1'' ''svc'' [VNum 1] (turn ''m2'' 60001),
          cc_serverId = Some ''srv1'', cc_hasCallback = True, cc_tid = Some 2\<rparr>,
         \<lparr>cc_name = ''svc'', cc_args = [VNum 1], cc_callback = OnCallback 0,
          cc_msg = pocketCallMessage ''c1'' ''svc'' [VNum 1] (turn ''m3'' 120001),
          cc_serverId = Some ''srv1'', cc_hasCallback = True, cc_tid = Some 3\<rparr>,
         \<lparr>cc_name = ''svc'', cc_args = [VNum 1], cc_callback = OnCallback 0,
          cc_msg = pocketCallMessage ''c1'' ''svc'' [VNum 1] (turn ''m4'' 180002),
          cc_serverId = Some ''srv1'', cc_hasCallback = True, cc_tid = Some 4\<rparr>],
      binds = [\<lparr>b_name = ''svc'', b_retry = 2, b_timeout = 60000, b_onRetry = Default 0\<rparr>],
      invs = [\<lparr>i_bind = 0, i_args = [VNum 1], i_callback = VFun 7, i_retryCounter = 2\<rparr>,
              \<lparr>i_bind = 0, i_args = [VNum 2], i_callback = VFun 8, i_retryCounter = 0\<rparr>],
      timers = [0 \<mapsto> (ClearServerList, 30000)],
      due = (\<lambda>tid. 0)(0 := 270000, 1 := 60001, 2 := 120001, 3 := 180001, 4 := 240002),
      nextTimer = 5, scans = Map.empty, nextScan = 4,
      out =
        [Subscribe ''clouds:L:c1'',
         Keys ''clouds:S:svc:*'',
         Publish ''clouds:L:srv1'' (pocketCallMessage ''c1'' ''svc'' [VNum 1] (turn ''m1'' 1)),
         Del ''clouds:S:svc:srv1'', Completed 0 [timeout_error],
         Keys ''clouds:S:svc:*'',
         Publish ''clouds:L:srv1'' (pocketCallMessage ''c1'' ''svc'' [VNum 1] (turn ''m2'' 60001)),
         Del ''clouds:S:svc:srv1'', Completed 1 [timeout_error],
         Keys ''clouds:S:svc:*'',
         Publish ''clouds:L:srv1'' (pocketCallMessage ''c1'' ''svc'' [VNum 1] (turn ''m3'' 120001)),
         Del ''clouds:S:svc:srv1'', Completed 2 [timeout_error],
         Apply (VFun 7) [timeout_error],
         Keys ''clouds:S:svc:*'',
         Publish ''clouds:L:srv1'' (pocketCallMessage ''c1'' ''svc'' [VNum 1] (turn ''m4'' 180002)),
         Del ''clouds:S:svc:srv1'', Completed 3 [timeout_error],
         Apply (VFun 7) [timeout_error]]\<rparr>"
  by (simp add: example_invoked_twice_def example_second_invocation_def
      example_invoked_once_state
      run_defs call_explicit closure_simps Let_def fun_eq_iff)

section \<open>Completion at most once\<close>

text \<open>
  C1: in every run of the client, whatever the order of timeouts, results and answers to
  scans, the callback of each call is applied at most once. Once the latch of a call has
  closed, no timeout of that call is armed any more, and its handler \<open>cb\<close>, should a
  result still reach it, leaves the state as it is.
\<close>

theorem callback_at_most_once:
  "completions c (run evs (CloudsClient options uid)) \<le> 1
   \<and> (cc_hasCallback (calls (run evs (CloudsClient options uid)) ! c) \<longrightarrow>
        cb c a e (run evs (CloudsClient options uid)) = run evs (CloudsClient options uid)
        \<and> (\<forall>tid d. timers (run evs (CloudsClient options uid)) tid \<noteq> Some (CheckTimeout c, d)))"
proof -
  let ?s = "run evs (CloudsClient options uid)"
  have cons: "consistent ?s" by (rule consistent_reachable)
  then have 1: "completions c ?s \<le> 1" by (simp add: consistent_def)
  have 2: "cc_hasCallback (calls ?s ! c) \<longrightarrow> cb c a e ?s = ?s"
    by (simp add: cb.simps)
  have 3: "cc_hasCallback (calls ?s ! c) \<longrightarrow> (\<forall>tid d. timers ?s tid \<noteq> Some (CheckTimeout c, d))"
    using consistent_timerD [OF cons] by blast
  from 1 2 3 show ?thesis by blast
qed

theorem callback_at_most_once_witness:
  "cc_hasCallback (calls example_completed ! 0)
   \<and> completions 0 example_completed \<le> 1
   \<and> cb 0 [timeout_error] (turn [] 60000) example_completed = example_completed
   \<and> timers example_completed (Suc 0) \<noteq> Some (CheckTimeout 0, 60000)"
  using callback_at_most_once
    [of 0 "[(turn ''m1'' 0, ECall ''svc'' [VNum 1] (VFun 7)),
          (turn [] 0, EKeys 0 VNull (Some [''clouds:S:svc:srv1''])),
          (turn [] 9, EMessage ''clouds:L:c1'' example_result)]"
      example_options "''c1''" "[timeout_error]" "turn [] 60000", folded example_completed_def]
  by (simp add: example_completed_fields)

section \<open>Discovery without a server\<close>

text \<open>
  C2, as the claim states it, fails: \<open>call\<close> arms the timeout of the call before the
  answer to the key scan is there (line 162 runs in the turn of \<open>call\<close>), also for a call
  whose scan then finds no server.
\<close>

theorem timeout_armed_before_discovery_counterexample:
  "scans example_called 0 = Some (''svc'', 0)
   \<and> timers example_called 1 = Some (CheckTimeout 0, 60000)
   \<and> out (step (turn [] 5) (EKeys 0 VNull (Some [])) example_called) =
       out example_called @ [Completed 0 [no_server_error], Apply (VFun 7) [no_server_error]]"
  by (simp add: example_called_fields step_def keysReply_def returnOneServer.simps found.simps
      cb.simps saveServerList_def Let_def no_server_error_def upd_call_def clearTimeout_def
      emit_def applyFn_def del: One_nat_def)

text \<open>
  C2, amended: when the scan of a call that has not completed yet (its timeout has not
  fired) finds no server, the callback is applied to the error \<open>CLOUDS_NO_AVAILABLE_SERVER\<close>,
  once; nothing is published; and the timeout that \<open>call\<close> armed is cleared, so that no
  timeout of this call stays armed.
\<close>

theorem no_server_fails_and_clears_timeout:
  assumes "s = run evs (CloudsClient options uid)"
    and "scans s rid = Some (name, c)"
    and "\<not> cc_hasCallback (calls s ! c)"
    and "\<not> truthy err"
    and "map last_segment (case list of None \<Rightarrow> [] | Some l \<Rightarrow> l) = []"
  shows "Completed c [no_server_error] \<in> set (out (step e (EKeys rid err list) s))
    \<and> completions c (step e (EKeys rid err list) s) = 1
    \<and> filter is_publish (out (step e (EKeys rid err list) s)) = filter is_publish (out s)
    \<and> (\<forall>tid d. timers (step e (EKeys rid err list) s) tid \<noteq> Some (CheckTimeout c, d))
    \<and> (\<forall>f. cc_callback (calls s ! c) = Given f \<and> is_function f \<longrightarrow>
          out (step e (EKeys rid err list) s) =
            out s @ [Completed c [no_server_error], Apply f [no_server_error]])"
proof -
  have cons: "consistent s"
    using assms(1) by (simp add: consistent_reachable)
  have c: "c < length (calls s)"
    using cons assms(2) by (rule consistent_scanD)
  have zero: "completions c s = 0"
    using cons c assms(3) by (simp add: consistent_def)
  define s2 where "s2 = saveServerList name [] (e_now e) (s\<lparr>scans := (scans s)(rid := None)\<rparr>)"
  define s3 where "s3 = emit (Completed c [no_server_error])
      (clearTimeout (cc_tid (calls s ! c)) (upd_call c (\<lambda>x. x\<lparr>cc_hasCallback := True\<rparr>) s2))"
  let ?s' = "step e (EKeys rid err list) s"
  have step: "?s' = (case cc_callback (calls s ! c) of
                       Given f \<Rightarrow> applyFn f [no_server_error] s3
                     | OnCallback i \<Rightarrow> onCallback i [no_server_error] e s3)"
    using assms(2-5) c
    by (cases "cc_callback (calls s ! c)")
      (simp_all add: step_def keysReply_def returnOneServer.simps found.simps cb.simps Let_def
        s2_def s3_def saveServerList_def upd_call_def no_server_error_def)
  have out3: "out s3 = out s @ [Completed c [no_server_error]]"
    by (simp add: s3_def s2_def emit_def clearTimeout_def upd_call_def saveServerList_def
        split: option.splits)
  have timers3: "timers s3 tid = (if cc_tid (calls s ! c) = Some tid then None else timers s tid)"
    for tid
    by (simp add: s3_def s2_def emit_def clearTimeout_def upd_call_def saveServerList_def
        split: option.splits)
  have out': "out ?s' = out s3 \<or> (\<exists>f. out ?s' = out s3 @ [Apply f [no_server_error]])
      \<or> out ?s' = out s3 @ [Throw ''TypeError'']"
    by (simp add: step onCallback_no_server applyFn_def emit_def setTimeout_def
        split: callback.splits)
  have timers': "timers ?s' tid = timers s3 tid \<or> (\<exists>i d. timers ?s' tid = Some (TryAgain i, d))"
    for tid
    by (simp add: step onCallback_no_server applyFn_def emit_def setTimeout_def
        split: callback.splits)
  have 1: "Completed c [no_server_error] \<in> set (out ?s')"
    using out' out3 by auto
  have 2: "completions c ?s' = 1"
    using out' out3 zero by (auto simp: completions_def)
  have 3: "filter is_publish (out ?s') = filter is_publish (out s)"
    using out' out3 by auto
  have 4: "\<forall>tid d. timers ?s' tid \<noteq> Some (CheckTimeout c, d)"
  proof (intro allI notI)
    fix tid d assume a: "timers ?s' tid = Some (CheckTimeout c, d)"
    with timers' [of tid] have "timers s3 tid = Some (CheckTimeout c, d)" by auto
    then have "timers s tid = Some (CheckTimeout c, d)" "cc_tid (calls s ! c) \<noteq> Some tid"
      by (auto simp: timers3 split: if_splits)
    with consistent_timerD [OF cons this(1)] show False by simp
  qed
  have 5: "\<forall>f. cc_callback (calls s ! c) = Given f \<and> is_function f \<longrightarrow>
          out ?s' = out s @ [Completed c [no_server_error], Apply f [no_server_error]]"
    by (simp add: step applyFn_def emit_def out3)
  from 1 2 3 4 5 show ?thesis by blast
qed

theorem no_server_fails_and_clears_timeout_witness:
  "scans example_called 0 = Some (''svc'', 0)
   \<and> \<not> cc_hasCallback (calls example_called ! 0)
   \<and> timers example_called 1 = Some (CheckTimeout 0, 60000)
   \<and> timers (step (turn [] 5) (EKeys 0 VNull (Some [])) example_called) 1
       \<noteq> Some (CheckTimeout 0, 60000)
   \<and> completions 0 (step (turn [] 5) (EKeys 0 VNull (Some [])) example_called) = 1
   \<and> filter is_publish (out (step (turn [] 5) (EKeys 0 VNull (Some [])) example_called)) = []"
proof -
  have r: "example_called =
      run [(turn ''m1'' 0, ECall ''svc'' [VNum 1] (VFun 7))] (CloudsClient example_options ''c1'')"
    by (simp add: example_called_def)
  from no_server_fails_and_clears_timeout
    [of example_called _ example_options "''c1''" 0 "''svc''" 0 VNull "Some []" "turn [] 5", OF r]
  show ?thesis
    by (simp add: example_called_fields del: One_nat_def)
qed

section \<open>Pending calls at shutdown\<close>

text \<open>
  C3, as the claim states it, fails: \<open>exit\<close> clears the interval and ends the two
  connections, and that is all. The handler of a call in flight stays registered, its
  timeout stays armed, and when it fires after \<open>exit\<close> the callback is applied to the
  timeout error.
\<close>

theorem late_timeout_after_exit_counterexample:
  "messages (step (turn [] 10) (EExit (VFun 9)) example_dispatched) ''m1'' = Some 0
   \<and> timers (step (turn [] 10) (EExit (VFun 9)) example_dispatched) (Suc 0)
       = Some (CheckTimeout 0, 60000)
   \<and> out (step (turn [] 60000) (ETimer (Suc 0))
            (step (turn [] 10) (EExit (VFun 9)) example_dispatched)) =
       out example_dispatched @
         [End ''cp'', End ''cs'', Del ''clouds:S:svc:srv1'',
          Completed 0 [timeout_error], Apply (VFun 7) [timeout_error]]"
proof -
  have e: "step (turn [] 10) (EExit (VFun 9)) example_dispatched = exit (VFun 9) example_dispatched"
    by (simp add: step_def)
  have f: "messages (exit (VFun 9) example_dispatched) ''m1'' = Some 0"
    "timers (exit (VFun 9) example_dispatched) (Suc 0) = Some (CheckTimeout 0, 60000)"
    "due (exit (VFun 9) example_dispatched) (Suc 0) = 60000"
    "calls (exit (VFun 9) example_dispatched) = calls example_dispatched"
    "servers (exit (VFun 9) example_dispatched) ''svc'' = Some [''srv1'']"
    "c_notAutoCleanRemoteServer (exit (VFun 9) example_dispatched) = False"
    "c_prefix (exit (VFun 9) example_dispatched) = ''clouds''"
    "out (exit (VFun 9) example_dispatched) = out example_dispatched @ [End ''cp'', End ''cs'']"
    by (simp_all add: exit_def clearTimeout_def emit_def Let_def example_dispatched_fields
        example_dispatched_call,
        simp_all add: example_dispatched_def client_defs call_explicit returnOneServer.simps
        found.simps Let_def)
  show ?thesis
    unfolding e
    by (simp add: f step_ETimer fires_def checkTimeout_def cb.simps removeServer_def
        removeMessageHandler_def example_dispatched_fields example_dispatched_call
        upd_call_def clearTimeout_def emit_def applyFn_def key_def seg_def Let_def
        get_server_def put_server_def has_positive_length_def turn_def)
qed

text \<open>
  C3, amended: \<open>exit\<close> cancels the sweep timer and closes both connections; it leaves the
  pending handlers, the calls and every other timer as they are and applies no
  callback. A timeout of a call that is armed at \<open>exit\<close> is still armed afterwards. When it
  is due and fires, and \<open>_servers[name]\<close> for the name of the call is a list or has no
  positive length, so that \<open>_removeServer\<close> does not throw, the callback of that call is
  applied to the timeout error, once.
\<close>

theorem exit_keeps_pending_calls:
  assumes "s = run evs (CloudsClient options uid)"
    and "timers s tid = Some (CheckTimeout c, d)"
    and "due s tid \<le> e_now e2"
    and "(\<exists>xs. get_server s (cc_name (calls s ! c)) = LArray xs)
      \<or> \<not> has_positive_length (get_server s (cc_name (calls s ! c)))"
  shows "messages (step e (EExit callback) s) = messages s
    \<and> messages_proto (step e (EExit callback) s) = messages_proto s
    \<and> calls (step e (EExit callback) s) = calls s
    \<and> timers (step e (EExit callback) s) = (timers s)(clearServerListTid s := None)
    \<and> out (step e (EExit callback) s) = out s @ [End ''cp'', End ''cs'']
    \<and> timers (step e (EExit callback) s) tid = Some (CheckTimeout c, d)
    \<and> completions c (step e (EExit callback) s) = 0
    \<and> completions c (step e2 (ETimer tid) (step e (EExit callback) s)) = 1
    \<and> Completed c [timeout_error]
         \<in> set (out (step e2 (ETimer tid) (step e (EExit callback) s)))
    \<and> (\<forall>f. cc_callback (calls s ! c) = Given f \<and> is_function f \<longrightarrow>
          out (step e2 (ETimer tid) (step e (EExit callback) s)) =
            out s @ [End ''cp'', End ''cs'']
              @ (if c_notAutoCleanRemoteServer s then []
                 else [Del (key s [''S'', cc_name (calls s ! c),
                                   seg (cc_serverId (calls s ! c))])])
              @ [Completed c [timeout_error], Apply f [timeout_error]])"
proof -
  let ?x = "step e (EExit callback) s"
  have cons: "consistent s"
    using assms(1) by (simp add: consistent_reachable)
  have x: "?x = exit callback s"
    by (simp add: step_def)
  have consx: "consistent ?x"
    unfolding x using cons by (rule consistent_exit)
  have 1: "messages ?x = messages s" "messages_proto ?x = messages_proto s"
    "calls ?x = calls s"
    "timers ?x = (timers s)(clearServerListTid s := None)"
    "out ?x = out s @ [End ''cp'', End ''cs'']"
    by (simp_all add: x exit_def clearTimeout_def emit_def Let_def)
  have fx: "due ?x = due s" "c_notAutoCleanRemoteServer ?x = c_notAutoCleanRemoteServer s"
    "key ?x = key s"
    by (simp_all add: x exit_def clearTimeout_def emit_def key_def fun_eq_iff Let_def)
  have gx: "get_server ?x = get_server s"
    by (rule get_server_cong) (simp_all add: x exit_def clearTimeout_def emit_def Let_def)
  have "tid \<noteq> clearServerListTid s"
    using cons assms(2) by (auto simp: consistent_def)
  with assms(2) have armed: "timers ?x tid = Some (CheckTimeout c, d)"
    by (simp add: 1)
  have nowx: "due ?x tid \<le> e_now e2"
    using assms(3) by (simp add: fx)
  have okx: "(\<exists>xs. get_server ?x (cc_name (calls ?x ! c)) = LArray xs)
      \<or> \<not> has_positive_length (get_server ?x (cc_name (calls ?x ! c)))"
    using assms(4) by (simp add: gx 1)
  from timeout_turn [OF consx armed nowx okx]
  obtain s3 where aft: "after s3 (step e2 (ETimer tid) ?x)"
    and given: "\<forall>f. cc_callback (calls ?x ! c) = Given f \<longrightarrow>
          step e2 (ETimer tid) ?x = applyFn f [timeout_error] s3"
    and out3: "out s3 = out ?x @ (if c_notAutoCleanRemoteServer ?x then []
                        else [Del (key ?x [''S'', cc_name (calls ?x ! c),
                                          seg (cc_serverId (calls ?x ! c))])])
                     @ [Completed c [timeout_error]]"
    and zero: "completions c ?x = 0"
    by blast
  have 2: "completions c (step e2 (ETimer tid) ?x) = 1"
    using after_completions [OF aft, of c] zero by (simp add: completions_def out3)
  have 3: "Completed c [timeout_error] \<in> set (out (step e2 (ETimer tid) ?x))"
    using aft by (rule after_out) (simp add: out3)
  have 4: "\<forall>f. cc_callback (calls s ! c) = Given f \<and> is_function f \<longrightarrow>
          out (step e2 (ETimer tid) ?x) =
            out s @ [End ''cp'', End ''cs'']
              @ (if c_notAutoCleanRemoteServer s then []
                 else [Del (key s [''S'', cc_name (calls s ! c),
                                   seg (cc_serverId (calls s ! c))])])
              @ [Completed c [timeout_error], Apply f [timeout_error]]"
    using given by (auto simp: out3 1 fx applyFn_def emit_def)
  from 1 armed zero 2 3 4 show ?thesis by blast
qed

theorem exit_keeps_pending_calls_witness:
  "timers example_dispatched (Suc 0) = Some (CheckTimeout 0, 60000)
   \<and> due example_dispatched (Suc 0) \<le> e_now (turn [] 60000)
   \<and> get_server example_dispatched (cc_name (calls example_dispatched ! 0)) = LArray [''srv1'']
   \<and> messages (step (turn [] 10) (EExit (VFun 9)) example_dispatched) ''m1'' = Some 0
   \<and> timers (step (turn [] 10) (EExit (VFun 9)) example_dispatched) (Suc 0)
       = Some (CheckTimeout 0, 60000)
   \<and> completions 0 (step (turn [] 60000) (ETimer (Suc 0))
        (step (turn [] 10) (EExit (VFun 9)) example_dispatched)) = 1"
proof -
  have f: "due example_dispatched (Suc 0) = 60000"
    "get_server example_dispatched ''svc'' = LArray [''srv1'']"
    by (simp_all add: example_dispatched_def client_defs call_explicit returnOneServer.simps
        found.simps Let_def)
  from exit_keeps_pending_calls
    [of example_dispatched _ example_options "''c1''" "Suc 0" 0 60000 "turn [] 60000"
      "turn [] 10" "VFun 9", OF example_dispatched_def]
  show ?thesis
    by (simp add: example_dispatched_call example_dispatched_fields f turn_def)
qed

section \<open>Arguments of a bound caller\<close>

text \<open>
  C4 does not hold for the code. The default \<open>onRetry\<close> is created inside the first
  invocation of a bound caller and stored in the variable \<open>onRetry\<close> of \<open>bind\<close>; it calls the
  \<open>call\<close> of that invocation with the \<open>args\<close> of that invocation. The second invocation
  finds \<open>onRetry\<close> set and uses it: with arguments \<open>(2, g)\<close> after \<open>(1, f)\<close> it dispatches
  \<open>[1]\<close> again, with the \<open>onCallback\<close> of the first invocation as callback, so that the
  completion goes to \<open>f\<close> and \<open>g\<close> is never applied.
\<close>

theorem second_invocation_dispatches_first_arguments:
  "map i_args (invs example_bound_twice) = [[VNum 1], [VNum 2]]
   \<and> map i_callback (invs example_bound_twice) = [VFun 7, VFun 8]
   \<and> b_onRetry (binds example_bound_twice ! 0) = Default 0
   \<and> map cc_args (calls example_bound_twice) = [[VNum 1], [VNum 1]]
   \<and> map cc_callback (calls example_bound_twice) = [OnCallback 0, OnCallback 0]
   \<and> out (step (turn [] 3) (EKeys (Suc 0) VNull (Some [])) example_bound_twice) =
       out example_bound_twice
         @ [Completed (Suc 0) [no_server_error], Apply (VFun 7) [no_server_error]]"
  by (simp add: example_bound_twice_def client_defs call_explicit closure_simps Let_def
      del: One_nat_def)

section \<open>An empty server list\<close>

text \<open>
  C5, as the claim states it, fails: after a scan that found nothing, the empty list is in
  the cache with its timestamp, and the next call for the same name scans again.
\<close>

theorem empty_list_scanned_again_counterexample:
  "servers example_no_server ''svc'' = Some []
   \<and> serversTimestamp example_no_server ''svc'' = Some 5
   \<and> out (step (turn ''m2'' 6) (ECall ''svc'' [VNum 1] (VFun 8)) example_no_server) =
       out example_no_server @ [Keys ''clouds:S:svc:*'']"
  by (simp add: step_def call_explicit example_no_server_fields key_def Let_def get_server_def)

text \<open>
  C5, amended: when a scan for a name finds nothing, the empty list is what \<open>_servers[name]\<close>
  holds afterwards, and for a name other than \<open>__proto__\<close> it is stored as an own entry of
  the cache together with the current time. A later call for a name under which the
  cache holds the empty list does not fail from the cache: it issues the key scan again
  and waits for its answer.
\<close>

theorem empty_list_is_stored_and_scanned_again:
  "(\<not> truthy err \<and> map last_segment (case list of None \<Rightarrow> [] | Some l \<Rightarrow> l) = [] \<longrightarrow>
      get_server (keysReply name c err list e s) name = LArray []
      \<and> (name \<noteq> ''__proto__'' \<longrightarrow>
           servers (keysReply name c err list e s) name = Some []
           \<and> serversTimestamp (keysReply name c err list e s) name = Some (e_now e)))
   \<and> (get_server s name = LArray [] \<longrightarrow>
      out (call name args callback e s) = out s @ [Keys (key s [''S'', name, ''*''])]
      \<and> scans (call name args callback e s) (nextScan s) = Some (name, length (calls s))
      \<and> filter is_publish (out (call name args callback e s)) = filter is_publish (out s)
      \<and> completions (length (calls s)) (call name args callback e s)
          = completions (length (calls s)) s)"
proof -
  have stored: "servers (cb c [no_server_error] e s1) = servers s1
      \<and> servers_proto (cb c [no_server_error] e s1) = servers_proto s1
      \<and> serversTimestamp (cb c [no_server_error] e s1) = serversTimestamp s1" for s1
    by (simp add: cb.simps onCallback.simps applyFn_def emit_def setTimeout_def clearTimeout_def
        upd_call_def no_server_error_def Let_def split: callback.splits option.splits)
  have reply: "keysReply name c err list e s =
      cb c [no_server_error] e (saveServerList name [] (e_now e) s)"
    if "\<not> truthy err" "map last_segment (case list of None \<Rightarrow> [] | Some l \<Rightarrow> l) = []"
    using that
    by (simp add: keysReply_def returnOneServer.simps found.simps Let_def,
        simp add: no_server_error_def)
  have g: "get_server (cb c [no_server_error] e s1) = get_server s1" for s1
    by (rule get_server_cong) (simp_all add: stored)
  have a: "\<not> truthy err \<and> map last_segment (case list of None \<Rightarrow> [] | Some l \<Rightarrow> l) = [] \<longrightarrow>
      get_server (keysReply name c err list e s) name = LArray []
      \<and> (name \<noteq> ''__proto__'' \<longrightarrow>
           servers (keysReply name c err list e s) name = Some []
           \<and> serversTimestamp (keysReply name c err list e s) name = Some (e_now e))"
    by (auto simp: reply g stored)
      (simp_all add: saveServerList_def put_server_def put_timestamp_def)
  have b: "get_server s name = LArray [] \<longrightarrow>
      out (call name args callback e s) = out s @ [Keys (key s [''S'', name, ''*''])]
      \<and> scans (call name args callback e s) (nextScan s) = Some (name, length (calls s))
      \<and> filter is_publish (out (call name args callback e s)) = filter is_publish (out s)
      \<and> completions (length (calls s)) (call name args callback e s)
          = completions (length (calls s)) s"
    by (simp add: call_explicit Let_def completions_def)
  from a b show ?thesis by blast
qed

theorem empty_list_is_stored_and_scanned_again_witness:
  "servers (keysReply ''svc'' 0 VNull (Some []) (turn [] 5) example_called) ''svc'' = Some []
   \<and> serversTimestamp (keysReply ''svc'' 0 VNull (Some []) (turn [] 5) example_called) ''svc''
       = Some 5
   \<and> get_server example_called ''svc'' = LArray []
   \<and> out (call ''svc'' [VNum 2] (Given (VFun 8)) (turn ''m2'' 6) example_called) =
       out example_called @ [Keys ''clouds:S:svc:*'']"
proof -
  have g: "get_server example_called ''svc'' = LArray []"
    by (simp add: get_server_def example_called_fields)
  from empty_list_is_stored_and_scanned_again
      [of VNull "Some []" "''svc''" 0 "turn [] 5" example_called "[VNum 2]" "Given (VFun 8)"]
    empty_list_is_stored_and_scanned_again
      [of VNull "Some []" "''svc''" 0 "turn ''m2'' 6" example_called "[VNum 2]" "Given (VFun 8)"]
  show ?thesis
    by (simp add: example_called_fields key_def turn_def g)
qed

section \<open>Timeout of a call\<close>

text \<open>
  C6 does not hold for the code. \<open>_servers\<close> is a plain object, and \<open>_removeServer\<close> reads
  \<open>this._servers[name]\<close> without asking whether the entry is its own. For a service named
  \<open>constructor\<close> whose list the sweep has removed, the read finds the function that
  \<open>Object.prototype\<close> has under that name; it is truthy and its \<open>length\<close> is 1, so line 328
  calls its \<open>filter\<close>, which is \<open>undefined\<close>. The \<open>TypeError\<close> ends the turn of the timeout
  after the handler has been removed: no key is deleted and the callback is not
  applied, now or later, since neither a handler nor a timer of the call is left.
\<close>

theorem timeout_of_inherited_name_throws:
  "servers example_inherited_name ''constructor'' = None
   \<and> get_server example_inherited_name ''constructor'' = LFunction 1
   \<and> timers example_inherited_name 2 = Some (CheckTimeout 1, 60000)
   \<and> due example_inherited_name 2 = 110000
   \<and> cc_name (calls example_inherited_name ! 1) = ''constructor''
   \<and> cc_serverId (calls example_inherited_name ! 1) = Some ''srv1''
   \<and> cc_callback (calls example_inherited_name ! 1) = Given (VFun 8)
   \<and> messages example_inherited_name ''m2'' = Some 1
   \<and> \<not> c_notAutoCleanRemoteServer example_inherited_name
   \<and> removeServer (Some ''srv1'') ''constructor'' example_inherited_name = Inl ''TypeError''
   \<and> out (step (turn [] 110000) (ETimer 2) example_inherited_name) =
       out example_inherited_name @ [Throw ''TypeError'']
   \<and> completions 1 (step (turn [] 110000) (ETimer 2) example_inherited_name) = 0
   \<and> messages (step (turn [] 110000) (ETimer 2) example_inherited_name) ''m2'' = None
   \<and> timers (step (turn [] 110000) (ETimer 2) example_inherited_name) 2 = None"
proof -
  have r: "removeServer (Some ''srv1'') ''constructor'' s = Inl ''TypeError''"
    if "get_server s ''constructor'' = LFunction 1" for s
    using that by (simp add: removeServer_def has_positive_length_def Let_def)
  have s: "step (turn [] 110000) (ETimer 2) example_inherited_name =
      emit (Throw ''TypeError'') (removeMessageHandler ''m2''
        (example_inherited_name\<lparr>timers := (timers example_inherited_name)(2 := None)\<rparr>))"
    by (simp add: step_ETimer fires_def checkTimeout_def example_inherited_name_fields
        turn_def Let_def r removeMessageHandler_def del: One_nat_def)
  show ?thesis
    unfolding s
    by (simp add: example_inherited_name_fields r emit_def removeMessageHandler_def
        completions_def del: One_nat_def)
qed

section \<open>Retries of a bound caller\<close>

text \<open>
  C7 does not hold for the code, by the defect of C4. The first invocation of a bound
  caller from \<open>bind('svc', 2)\<close> behaves as the claim says: with every dispatch timing out
  there are three dispatches, and the callback gets the timeout error. But the default
  \<open>onRetry\<close> belongs to the first invocation, and so do the \<open>call\<close> it calls, the
  \<open>onCallback\<close> that gets the completion, and the \<open>retryCounter\<close> that \<open>onCallback\<close> reads. A
  second invocation \<open>f(2, fn8)\<close> dispatches \<open>[1]\<close>; when that dispatch times out, the
  counter of the first invocation is 2 already, so there is no retry at all, and the
  timeout error goes to \<open>fn7\<close> again. The counter of the second invocation stays 0 and
  \<open>fn8\<close> is never applied.
\<close>

theorem second_invocation_shares_retry_budget:
  "b_retry (binds example_invoked_once ! 0) = 2
   \<and> map cc_args (calls example_invoked_once) = [[VNum 1], [VNum 1], [VNum 1]]
   \<and> map i_retryCounter (invs example_invoked_once) = [2]
   \<and> filter is_apply (out example_invoked_once) = [Apply (VFun 7) [timeout_error]]
   \<and> map i_args (invs example_invoked_twice) = [[VNum 1], [VNum 2]]
   \<and> map i_callback (invs example_invoked_twice) = [VFun 7, VFun 8]
   \<and> map i_retryCounter (invs example_invoked_twice) = [2, 0]
   \<and> map cc_args (calls example_invoked_twice) = [[VNum 1], [VNum 1], [VNum 1], [VNum 1]]
   \<and> map cc_callback (calls example_invoked_twice) =
       [OnCallback 0, OnCallback 0, OnCallback 0, OnCallback 0]
   \<and> map cc_hasCallback (calls example_invoked_twice) = [True, True, True, True]
   \<and> filter is_publish (out example_invoked_twice) =
       [Publish ''clouds:L:srv1'' (pocketCallMessage ''c1'' ''svc'' [VNum 1] (turn ''m1'' 1)),
        Publish ''clouds:L:srv1'' (pocketCallMessage ''c1'' ''svc'' [VNum 1] (turn ''m2'' 60001)),
        Publish ''clouds:L:srv1'' (pocketCallMessage ''c1'' ''svc'' [VNum 1] (turn ''m3'' 120001)),
        Publish ''clouds:L:srv1'' (pocketCallMessage ''c1'' ''svc'' [VNum 1] (turn ''m4'' 180002))]
   \<and> filter is_apply (out example_invoked_twice) =
       [Apply (VFun 7) [timeout_error], Apply (VFun 7) [timeout_error]]"
  by (simp add: example_invoked_once_state example_invoked_twice_state)

section \<open>The listener\<close>

text \<open>
  C8 does not hold for the code. \<open>_messages\<close> is a plain object, and \<open>_handleCallResult\<close>
  reads \<open>me._messages[msg.id]\<close> without asking whether the entry is its own. A result whose
  id matches no pending call but names a function of \<open>Object.prototype\<close> passes the test
  \<open>typeof fn !== 'function'\<close>, and the inherited function is applied with \<open>this = null\<close>:
  for \<open>hasOwnProperty\<close> that raises a \<open>TypeError\<close> out of the listener. The message is not
  discarded, and an error is raised.
\<close>

theorem result_with_inherited_id_is_applied:
  "listenKey example_dispatched = ''clouds:L:c1''
   \<and> m_type example_unknown_result = ''result''
   \<and> messages example_dispatched (m_id example_unknown_result) = None
   \<and> messages_proto example_dispatched = None
   \<and> get_message example_dispatched (m_id example_unknown_result) = LFunction 1
   \<and> out (step (turn [] 9) (EMessage ''clouds:L:c1'' example_unknown_result)
            example_dispatched) =
       out example_dispatched
         @ [Inherited ''hasOwnProperty'' [VNull, VNum 42], Throw ''TypeError'']"
proof -
  have f: "messages example_dispatched ''hasOwnProperty'' = None"
    "messages_proto example_dispatched = None"
    by (simp_all add: example_dispatched_def client_defs call_explicit returnOneServer.simps
        found.simps Let_def)
  have g: "get_message example_dispatched ''hasOwnProperty'' = LFunction 1"
    by (simp add: get_message_def object_prototype_def f)
  show ?thesis
    by (simp add: f g example_unknown_result_def example_dispatched_fields step_def
        on_message_def handleMessage_def handleCallResult_def applyInherited_def
        removeMessageHandler_def emit_def Let_def)
qed

section \<open>The eviction sweep\<close>

text \<open>
  C9, as the claim states it, fails at the boundary: with \<open>serverMaxAge = 2\<close> an entry
  refreshed at time 0 is exactly 2 seconds old at the tick at 2000 ms, not older than
  \<open>serverMaxAge\<close>, and the tick removes it (the test is \<open>timestamp <= now - maxAge\<close>).
\<close>

theorem sweep_boundary_counterexample:
  "c_serverMaxAge example_dispatched = 2
   \<and> servers example_dispatched ''svc'' = Some [''srv1'']
   \<and> serversTimestamp example_dispatched ''svc'' = Some 0
   \<and> due example_dispatched 0 = 1000
   \<and> servers (step (turn [] 1000) (ETimer 0) example_dispatched) ''svc'' = Some [''srv1'']
   \<and> due (step (turn [] 1000) (ETimer 0) example_dispatched) 0 = 2000
   \<and> \<not> (0 + c_serverMaxAge example_dispatched * 1000 < e_now (turn [] 2000))
   \<and> servers (step (turn [] 2000) (ETimer 0)
               (step (turn [] 1000) (ETimer 0) example_dispatched)) ''svc'' = None"
  by (simp add: example_dispatched_def client_defs call_explicit returnOneServer.simps
      found.simps Let_def)

text \<open>
  C9, amended: the constructor arms an interval of \<open>serverMaxAge * 500\<close> ms, first due one
  delay after the constructor. Its turn does nothing before it is due; when it fires
  it stays armed and is due again one delay later. A tick removes the list and the
  timestamp of exactly those names, other than \<open>__proto__\<close>, that have both and whose
  timestamp is at least \<open>serverMaxAge\<close> seconds before the tick
  (\<open>timestamp \<le> now - serverMaxAge * 1000\<close>), and leaves every other entry as it is. With
  \<open>serverMaxAge = 2\<close>, when an entry is refreshed at 0 and the next tick is due within one
  delay of that, the ticks on time are 1000 ms apart and the third of them, which is not
  later than 3000 ms, finds the entry gone or removes it.
\<close>

theorem sweep_removes_entries_of_full_age:
  "timers (CloudsClient options uid) (clearServerListTid (CloudsClient options uid)) =
     Some (ClearServerList, c_serverMaxAge (CloudsClient options uid) * 500)
   \<and> due (CloudsClient options uid) (clearServerListTid (CloudsClient options uid)) =
       c_serverMaxAge (CloudsClient options uid) * 500
   \<and> (timers s tid = Some (ClearServerList, d) \<longrightarrow>
        (e_now e < due s tid \<longrightarrow> step e (ETimer tid) s = s)
        \<and> (due s tid \<le> e_now e \<longrightarrow>
             timers (step e (ETimer tid) s) tid = Some (ClearServerList, d)
             \<and> due (step e (ETimer tid) s) tid = e_now e + d
             \<and> (\<forall>name. name \<noteq> ''__proto__'' \<longrightarrow>
                  (if servers s name \<noteq> None
                      \<and> (\<exists>ts. serversTimestamp s name = Some ts
                               \<and> ts \<le> e_now e - c_serverMaxAge s * 1000)
                   then servers (step e (ETimer tid) s) name = None
                        \<and> serversTimestamp (step e (ETimer tid) s) name = None
                   else servers (step e (ETimer tid) s) name = servers s name
                        \<and> serversTimestamp (step e (ETimer tid) s) name
                            = serversTimestamp s name))))
   \<and> (timers s (clearServerListTid s) = Some (ClearServerList, c_serverMaxAge s * 500)
        \<and> c_serverMaxAge s = 2 \<and> name \<noteq> ''__proto__''
        \<and> servers s name \<noteq> None \<and> serversTimestamp s name = Some 0
        \<and> 0 \<le> due s (clearServerListTid s) \<and> due s (clearServerListTid s) \<le> 1000 \<longrightarrow>
        due (tick s) (clearServerListTid s) = due s (clearServerListTid s) + 1000
        \<and> due (tick (tick s)) (clearServerListTid s) = due s (clearServerListTid s) + 2000
        \<and> due (tick (tick s)) (clearServerListTid s) \<le> 3000
        \<and> servers (tick (tick (tick s))) name = None)"
proof -
  let ?s0 = "CloudsClient options uid"
  have period: "timers ?s0 (clearServerListTid ?s0) =
       Some (ClearServerList, c_serverMaxAge ?s0 * 500)
     \<and> due ?s0 (clearServerListTid ?s0) = c_serverMaxAge ?s0 * 500"
    by (simp add: CloudsClient_def listen_def autoClearServerList_def setTimeout_def emit_def
        Let_def)
  have turn: "timers s tid = Some (ClearServerList, d) \<longrightarrow>
        (e_now e < due s tid \<longrightarrow> step e (ETimer tid) s = s)
        \<and> (due s tid \<le> e_now e \<longrightarrow>
             timers (step e (ETimer tid) s) tid = Some (ClearServerList, d)
             \<and> due (step e (ETimer tid) s) tid = e_now e + d
             \<and> (\<forall>name. name \<noteq> ''__proto__'' \<longrightarrow>
                  (if servers s name \<noteq> None
                      \<and> (\<exists>ts. serversTimestamp s name = Some ts
                               \<and> ts \<le> e_now e - c_serverMaxAge s * 1000)
                   then servers (step e (ETimer tid) s) name = None
                        \<and> serversTimestamp (step e (ETimer tid) s) name = None
                   else servers (step e (ETimer tid) s) name = servers s name
                        \<and> serversTimestamp (step e (ETimer tid) s) name
                            = serversTimestamp s name)))"
    by (auto simp: step_ETimer fires_ClearServerList servers_clearServerList
        serversTimestamp_clearServerList)
  have two: "timers s (clearServerListTid s) = Some (ClearServerList, c_serverMaxAge s * 500)
        \<and> c_serverMaxAge s = 2 \<and> name \<noteq> ''__proto__''
        \<and> servers s name \<noteq> None \<and> serversTimestamp s name = Some 0
        \<and> 0 \<le> due s (clearServerListTid s) \<and> due s (clearServerListTid s) \<le> 1000 \<longrightarrow>
        due (tick s) (clearServerListTid s) = due s (clearServerListTid s) + 1000
        \<and> due (tick (tick s)) (clearServerListTid s) = due s (clearServerListTid s) + 2000
        \<and> due (tick (tick s)) (clearServerListTid s) \<le> 3000
        \<and> servers (tick (tick (tick s))) name = None"
  proof (intro impI, elim conjE)
    assume t: "timers s (clearServerListTid s) = Some (ClearServerList, c_serverMaxAge s * 500)"
      and age: "c_serverMaxAge s = 2" and ts: "serversTimestamp s name = Some 0"
      and lo: "0 \<le> due s (clearServerListTid s)" and hi: "due s (clearServerListTid s) \<le> 1000"
    from t age have t': "timers s (clearServerListTid s) = Some (ClearServerList, 1000)"
      by simp
    from three_ticks [OF t' age ts lo hi] hi
    show "due (tick s) (clearServerListTid s) = due s (clearServerListTid s) + 1000
        \<and> due (tick (tick s)) (clearServerListTid s) = due s (clearServerListTid s) + 2000
        \<and> due (tick (tick s)) (clearServerListTid s) \<le> 3000
        \<and> servers (tick (tick (tick s))) name = None"
      by simp
  qed
  from period turn two show ?thesis by blast
qed

theorem sweep_removes_entries_of_full_age_witness:
  "timers example_dispatched 0 = Some (ClearServerList, 1000)
   \<and> due example_dispatched 0 = 1000
   \<and> servers example_dispatched ''svc'' = Some [''srv1'']
   \<and> serversTimestamp example_dispatched ''svc'' = Some 0
   \<and> step (turn [] 999) (ETimer 0) example_dispatched = example_dispatched
   \<and> servers (step (turn [] 1999) (ETimer 0) example_dispatched) ''svc'' = Some [''srv1'']
   \<and> servers (step (turn [] 2000) (ETimer 0) example_dispatched) ''svc'' = None
   \<and> timers (step (turn [] 2000) (ETimer 0) example_dispatched) 0 = Some (ClearServerList, 1000)
   \<and> due (step (turn [] 2000) (ETimer 0) example_dispatched) 0 = 3000
   \<and> due (tick (tick example_dispatched)) 0 = 3000
   \<and> servers (tick (tick (tick example_dispatched))) ''svc'' = None"
proof -
  have f: "timers example_dispatched 0 = Some (ClearServerList, 1000)"
    "due example_dispatched 0 = 1000"
    "servers example_dispatched ''svc'' = Some [''srv1'']"
    "serversTimestamp example_dispatched ''svc'' = Some 0"
    "c_serverMaxAge example_dispatched = 2"
    "clearServerListTid example_dispatched = 0"
    by (simp_all add: example_dispatched_def client_defs call_explicit returnOneServer.simps
        found.simps Let_def)
  note t = sweep_removes_entries_of_full_age [of _ _ example_dispatched 0 1000 _ "''svc''"]
  have z: "step (turn [] 999) (ETimer 0) example_dispatched = example_dispatched"
    using t [of example_options "''c1''" "turn [] 999"] f
    by (simp add: turn_def)
  have a: "servers (step (turn [] 1999) (ETimer 0) example_dispatched) ''svc'' = Some [''srv1'']"
    using t [of example_options "''c1''" "turn [] 1999"] f
    by (auto simp: turn_def dest!: spec [where x = "''svc''"])
  have b: "servers (step (turn [] 2000) (ETimer 0) example_dispatched) ''svc'' = None"
    using t [of example_options "''c1''" "turn [] 2000"] f
    by (auto simp: turn_def dest!: spec [where x = "''svc''"])
  have b': "timers (step (turn [] 2000) (ETimer 0) example_dispatched) 0
      = Some (ClearServerList, 1000)"
    "due (step (turn [] 2000) (ETimer 0) example_dispatched) 0 = 3000"
    using t [of example_options "''c1''" "turn [] 2000"] f
    by (simp_all add: turn_def)
  have c: "due (tick (tick example_dispatched)) 0 = 3000"
    "servers (tick (tick (tick example_dispatched))) ''svc'' = None"
    using t [of example_options "''c1''" "turn [] 0"] f
    by simp_all
  from f z a b b' c show ?thesis by simp
qed

section \<open>The callback of exit\<close>

text \<open>
  C10: \<open>exit(callback)\<close> never applies \<open>callback\<close>. It passes it through \<open>_callback\<close> and drops
  the result: the state after \<open>exit\<close> is the same whatever was passed, nothing is applied,
  and so every later turn is the same too.
\<close>

theorem exit_never_applies_callback:
  "exit callback s = exit VUndefined s
   \<and> out (exit callback s) = out s @ [End ''cp'', End ''cs'']
   \<and> run evs (exit callback s) = run evs (exit VUndefined s)"
  by (simp add: exit_def emit_def clearTimeout_def Let_def)

end
